theory Spec2Isabelle
  imports Main "HOL-Library.Sublist"
begin

section \<open>Conventions of the embedding\<close>

text \<open>
  The repository is a Playwright/Cucumber test harness written in TypeScript. Its helper
  functions are embedded as follows.
  \<^item> A thrown \<open>Error\<close> is the left injection of a sum: \<open>Inl message\<close>; a normal return is
    \<open>Inr value\<close>. Every \<open>try { ... } catch (error) { throw new Error(...) }\<close> of the source is
    a case distinction that rewrites the message of the left injection.
  \<^item> A Playwright primitive the helper awaits (\<open>locator.click\<close>, \<open>page.waitForEvent\<close>,
    \<open>browser.close\<close>, ...) is not code of the repository. What the primitive does when it
    is reached is an input of the model: a result value, or an oracle from the calls made
    so far to a result.
  \<^item> JavaScript strings are \<open>string\<close>: an ASCII character is itself, any other character
    is the bytes of its UTF-8 form. \<open>console.log\<close> and \<open>console.warn\<close> output is not
    modelled, the calls of \<open>logger\<close> in the browser lifecycle are.
\<close>

type_synonym 'a result = "string + 'a"

subsection \<open>Strings\<close>

text \<open>\<open>haystack.includes(needle)\<close>\<close>

fun includesStr :: "string \<Rightarrow> string \<Rightarrow> bool" where
  "includesStr [] needle = (needle = [])"
| "includesStr (c # cs) needle = (prefix needle (c # cs) \<or> includesStr cs needle)"

text \<open>
  \<open>s.toLowerCase()\<close> is the case mapping of the JavaScript engine, over all of Unicode. The
  functions that call it take it as their first argument, named \<open>toLowerCase\<close>, so that
  what is proved of them holds for the mapping of the engine.
\<close>

type_synonym caseMapping = "string \<Rightarrow> string"

text \<open>
  The mapping on ASCII text, where \<open>toLowerCase\<close> turns \<open>A\<close> to \<open>Z\<close> into \<open>a\<close> to \<open>z\<close> and
  keeps every other character. It serves in the sample inputs, whose texts are ASCII.
\<close>

definition lowerChar :: "char \<Rightarrow> char" where
  "lowerChar c =
     (case map_of (zip ''ABCDEFGHIJKLMNOPQRSTUVWXYZ'' ''abcdefghijklmnopqrstuvwxyz'') c of
        Some l \<Rightarrow> l
      | None \<Rightarrow> c)"

definition asciiLowerCase :: caseMapping where
  "asciiLowerCase s = map lowerChar s"

text \<open>
  \<open>s.trim()\<close>: white space is removed at both ends. The white space of the model is the
  ASCII one (tab, line feed, vertical tab, form feed, carriage return, space); the further
  Unicode spaces that \<open>trim\<close> removes as well, such as the no-break space, stay in place.
\<close>

definition isWhiteSpace :: "char \<Rightarrow> bool" where
  "isWhiteSpace c =
     (c \<in> set [CHR 0x09, CHR 0x0A, CHR 0x0B, CHR 0x0C, CHR 0x0D, CHR 0x20])"

definition trim :: "string \<Rightarrow> string" where
  "trim s = rev (dropWhile isWhiteSpace (rev (dropWhile isWhiteSpace s)))"

text \<open>\<open>parts.join(sep)\<close>\<close>

fun join :: "string \<Rightarrow> string list \<Rightarrow> string" where
  "join sep [] = []"
| "join sep [x] = x"
| "join sep (x # y # ys) = x @ sep @ join sep (y # ys)"

text \<open>
  The decimal text of an integer, as a template literal \<open>`${n}`\<close> prints a number whose
  magnitude is below \<open>10^21\<close>; from there on JavaScript prints the exponent form.
\<close>

definition digitChar :: "nat \<Rightarrow> char" where
  "digitChar d = ''0123456789'' ! d"

fun showNat :: "nat \<Rightarrow> string" where
  "showNat n = (if n < 10 then [digitChar n] else showNat (n div 10) @ [digitChar (n mod 10)])"

declare showNat.simps [simp del]

definition showInt :: "int \<Rightarrow> string" where
  "showInt i = (if i < 0 then CHR ''-'' # showNat (nat (- i)) else showNat (nat i))"

text \<open>\<open>value || fallback\<close> for an optional string parameter: \<open>undefined\<close> and the empty
  string are both falsy.\<close>

definition orDefault :: "string option \<Rightarrow> string \<Rightarrow> string" where
  "orDefault v fallback = (case v of None \<Rightarrow> fallback | Some s \<Rightarrow> if s = [] then fallback else s)"

subsection \<open>Decoded response bodies\<close>

text \<open>
  The value \<open>response.json()\<close> yields. The fields of an object are listed in the order in
  which \<open>Object.keys\<close> and \<open>Object.values\<close> enumerate them. The type of numbers is a
  parameter: no function below looks inside a number.
\<close>

datatype 'n json =
    JNull
  | JBool bool
  | JNum 'n
  | JStr string
  | JArr "'n json list"
  | JObj "(string \<times> 'n json) list"

fun isArray :: "'n json \<Rightarrow> bool" where
  "isArray (JArr xs) = True"
| "isArray v = False"

fun isObject :: "'n json \<Rightarrow> bool" where
  "isObject (JObj fs) = True"
| "isObject v = False"

fun typeof :: "'n json \<Rightarrow> string" where
  "typeof (JBool b) = ''boolean''"
| "typeof (JNum n) = ''number''"
| "typeof (JStr s) = ''string''"
| "typeof v = ''object''"

definition objectKeys :: "(string \<times> 'n json) list \<Rightarrow> string list" where
  "objectKeys obj = map fst obj"

definition objectValues :: "(string \<times> 'n json) list \<Rightarrow> 'n json list" where
  "objectValues obj = map snd obj"

section \<open>API helper: \<open>validateProductListResponse\<close>\<close>

text \<open>
  The message of the error that \<open>expect(received).toBeGreaterThanOrEqual(expected)\<close> throws
  is composed by the assertion library; it is the parameter \<open>geMessage received expected\<close>.
\<close>

type_synonym matcherMessage = "int \<Rightarrow> int \<Rightarrow> string"

text \<open>The first statement of the \<open>try\<close> block: which sequence is \<open>products\<close>.\<close>

definition selectProducts :: "'n json \<Rightarrow> 'n json list result" where
  "selectProducts responseData =
     (case responseData of
        JArr products \<Rightarrow> Inr products
      | JObj responseObj \<Rightarrow>
          (case find isArray (objectValues responseObj) of
             Some (JArr products) \<Rightarrow> Inr products
           | _ \<Rightarrow> Inl (''Response is not an array and no array property found. ''
                      @ ''Received type: '' @ typeof responseData
                      @ '', Keys: '' @ join '', '' (objectKeys responseObj)))
      | _ \<Rightarrow> Inl (''Response is not an array or object. Received type: ''
                 @ typeof responseData))"

text \<open>The rest of the \<open>try\<close> block: the count and the shape of the first product.\<close>

definition checkProducts :: "matcherMessage \<Rightarrow> 'n json list \<Rightarrow> int \<Rightarrow> unit result" where
  "checkProducts geMessage products minProducts =
     (let productCount = int (length products) in
      if \<not> (productCount \<ge> minProducts) then Inl (geMessage productCount minProducts)
      else if productCount > 0
              \<and> (typeof (products ! 0) \<noteq> ''object'' \<or> products ! 0 = JNull)
      then Inl ''Products in response are not valid objects''
      else Inr ())"

text \<open>The \<open>catch\<close> clause.\<close>

definition validationFailed :: "int \<Rightarrow> unit result \<Rightarrow> unit result" where
  "validationFailed minProducts r =
     (case r of
        Inl errorMessage \<Rightarrow>
          Inl (''Product list validation failed: '' @ errorMessage @ ''. ''
               @ ''Expected at least '' @ showInt minProducts @ '' products in the response.'')
      | Inr u \<Rightarrow> Inr u)"

definition validateProductListResponse ::
  "matcherMessage \<Rightarrow> 'n json \<Rightarrow> int \<Rightarrow> unit result" where
  "validateProductListResponse geMessage responseData minProducts =
     validationFailed minProducts
       (case selectProducts responseData of
          Inl e \<Rightarrow> Inl e
        | Inr products \<Rightarrow> checkProducts geMessage products minProducts)"

section \<open>API helper: \<open>interceptApiRequest\<close>\<close>

text \<open>
  A response as the predicate and the body of \<open>interceptApiRequest\<close> read it:
  \<open>response.url()\<close>, \<open>response.status()\<close>, the \<open>content-type\<close> header when there is one,
  and what \<open>response.json()\<close> does (it throws on a body that does not parse).
\<close>

record 'n response =
  url :: string
  status :: int
  contentType :: "string option"
  jsonBody :: "'n json result"

text \<open>The predicate handed to \<open>page.waitForResponse\<close>.\<close>

definition responseMatches :: "string \<Rightarrow> int \<Rightarrow> 'n response \<Rightarrow> bool" where
  "responseMatches endpoint expectedStatus response =
     (let urlMatches = includesStr (url response) endpoint;
          statusMatches = (status response = expectedStatus)
      in urlMatches \<and> statusMatches)"

text \<open>
  \<open>page.waitForResponse(predicate, {timeout})\<close> of Playwright: the responses the page
  receives before the timeout are given in their order of arrival; the wait resolves with
  the first one the predicate accepts and rejects with \<open>timeoutMessage\<close> when there is none.
\<close>

definition waitForResponse ::
  "string \<Rightarrow> ('n response \<Rightarrow> bool) \<Rightarrow> 'n response list \<Rightarrow> 'n response result" where
  "waitForResponse timeoutMessage predicate arrivals =
     (case find predicate arrivals of
        None \<Rightarrow> Inl timeoutMessage
      | Some response \<Rightarrow> Inr response)"

definition interceptApiRequest ::
  "string \<Rightarrow> 'n response list \<Rightarrow> string \<Rightarrow> int \<Rightarrow> 'n json result" where
  "interceptApiRequest timeoutMessage arrivals endpoint expectedStatus =
     (case (case waitForResponse timeoutMessage (responseMatches endpoint expectedStatus) arrivals of
              Inl e \<Rightarrow> Inl e
            | Inr response \<Rightarrow> jsonBody response) of
        Inl errorMessage \<Rightarrow>
          Inl (''API interception failed for '' @ endpoint @ '': '' @ errorMessage @ ''. ''
               @ ''Please verify the endpoint is correct and the API is accessible.'')
      | Inr responseData \<Rightarrow> Inr responseData)"

section \<open>Action utilities\<close>

text \<open>
  A native dialog: its message, what \<open>dialog.accept()\<close> does when it is called, and how
  often it has been called.
\<close>

record dialog =
  message :: string
  acceptOutcome :: "unit result"
  acceptCalls :: nat

definition accept :: "dialog \<Rightarrow> unit result \<times> dialog" where
  "accept d = (acceptOutcome d, d\<lparr>acceptCalls := Suc (acceptCalls d)\<rparr>)"

text \<open>\<open>promise.catch(() => null)\<close>\<close>

definition catchNull :: "'a result \<Rightarrow> 'a option" where
  "catchNull settled = (case settled of Inl e \<Rightarrow> None | Inr v \<Rightarrow> Some v)"

text \<open>The first argument of each utility is what the Playwright call it awaits does.\<close>

definition clickElement :: "unit result \<Rightarrow> string option \<Rightarrow> unit result" where
  "clickElement click actionDescription =
     (case click of
        Inr u \<Rightarrow> Inr ()
      | Inl errorMessage \<Rightarrow>
          Inl (orDefault actionDescription ''Click action'' @ '' failed: '' @ errorMessage @ ''. ''
               @ ''Please verify the element is visible and actionable.''))"

definition fillInput :: "unit result \<Rightarrow> string option \<Rightarrow> unit result" where
  "fillInput fill fieldName =
     (case fill of
        Inr u \<Rightarrow> Inr ()
      | Inl errorMessage \<Rightarrow>
          Inl (''Failed to fill '' @ orDefault fieldName ''input'' @ '' field: '' @ errorMessage
               @ ''. '' @ ''Please verify the field is visible and editable.''))"

definition verifyVisible :: "unit result \<Rightarrow> string option \<Rightarrow> unit result" where
  "verifyVisible toBeVisible elementName =
     (case toBeVisible of
        Inr u \<Rightarrow> Inr ()
      | Inl errorMessage \<Rightarrow>
          Inl (orDefault elementName ''Element'' @ '' is not visible: '' @ errorMessage @ ''. ''
               @ ''Please verify the element exists and is displayed.''))"

definition getCount :: "nat result \<Rightarrow> string option \<Rightarrow> nat result" where
  "getCount locatorCount elementName =
     (case locatorCount of
        Inr count \<Rightarrow> Inr count
      | Inl errorMessage \<Rightarrow>
          Inl (''Failed to count '' @ orDefault elementName ''elements'' @ '': '' @ errorMessage
               @ ''. '' @ ''Please verify the locator is correct.''))"

text \<open>
  \<open>getText\<close>: \<open>waitFor\<close> is the outcome of \<open>locator.waitFor({state: 'visible'})\<close>,
  \<open>textContent\<close> that of \<open>locator.textContent()\<close>, which resolves to \<open>null\<close> (\<open>None\<close>) or to a
  string.
\<close>

definition getText :: "unit result \<Rightarrow> string option result \<Rightarrow> string option \<Rightarrow> string result" where
  "getText waitFor textContent elementName =
     (case (case waitFor of
              Inl e \<Rightarrow> Inl e
            | Inr u \<Rightarrow>
                (case textContent of
                   Inl e \<Rightarrow> Inl e
                 | Inr text \<Rightarrow>
                     (if text = None \<or> text = Some [] then Inl ''Element text is empty or null''
                      else Inr (trim (the text))))) of
        Inl errorMessage \<Rightarrow>
          Inl (''Failed to get text from '' @ orDefault elementName ''Element'' @ '': ''
               @ errorMessage @ ''. ''
               @ ''Please verify the element is visible and contains text.'')
      | Inr text \<Rightarrow> Inr text)"

text \<open>
  \<open>handleDialog\<close>: \<open>dialogWait\<close> is how \<open>page.waitForEvent('dialog', {timeout})\<close> settles.
  The second component of the result is the dialog as the call leaves it.
\<close>

definition handleDialog ::
  "caseMapping \<Rightarrow> dialog result \<Rightarrow> string option \<Rightarrow> string option result \<times> dialog option" where
  "handleDialog toLowerCase dialogWait expectedMessage =
     (case (case catchNull dialogWait of
              None \<Rightarrow> (Inr None, None)
            | Some dialog \<Rightarrow>
                (let message = message dialog in
                 case accept dialog of
                   (Inl e, dialog') \<Rightarrow> (Inl e, Some dialog')
                 | (Inr u, dialog') \<Rightarrow>
                     (if expectedMessage \<noteq> None \<and> expectedMessage \<noteq> Some []
                         \<and> \<not> includesStr (toLowerCase message) (toLowerCase (the expectedMessage))
                      then (Inl (''Unexpected dialog message: '' @ message @ ''. Expected: ''
                                 @ the expectedMessage), Some dialog')
                      else (Inr (Some message), Some dialog')))) of
        (Inl errorMessage, d) \<Rightarrow> (Inl (''Dialog handling failed: '' @ errorMessage), d)
      | (Inr r, d) \<Rightarrow> (Inr r, d))"

section \<open>Cart helpers\<close>

text \<open>
  What the page does when the cart helpers reach it. \<open>cartDialogWait\<close> is how the
  \<open>waitForEvent('dialog')\<close> armed by \<open>addProductToCart\<close> settles.
\<close>

record cartPage =
  clickAddToCart :: "unit result"
  cartDialogWait :: "dialog result"
  clickCartLink :: "unit result"
  cartTableVisible :: "unit result"
  cartItemsVisible :: "unit result"
  cartItemsCount :: "nat result"

text \<open>
  \<open>addProductToCart\<close> is an \<open>async\<close> function that returns \<open>dialogPromise\<close> without awaiting
  it: the promise of the call adopts the state of \<open>dialogPromise\<close>, so a rejection of the
  dialog wait does not pass through the \<open>catch\<close> clause. The value is how the promise of
  the call settles.
\<close>

definition addProductToCart :: "cartPage \<Rightarrow> dialog result" where
  "addProductToCart pg =
     (case clickElement (clickAddToCart pg) (Some ''Click add to cart button'') of
        Inl errorMessage \<Rightarrow>
          Inl (''Add to cart failed: '' @ errorMessage @ ''. ''
               @ ''Please ensure you are on a product page and the product is available.'')
      | Inr u \<Rightarrow> cartDialogWait pg)"

definition verifyAddToCartSuccess ::
  "caseMapping \<Rightarrow> dialog result \<Rightarrow> unit result \<times> dialog option" where
  "verifyAddToCartSuccess toLowerCase dialogPromise =
     (case (case dialogPromise of
              Inl e \<Rightarrow> (Inl e, None)
            | Inr dialog \<Rightarrow>
                (let message = message dialog;
                     messageLower = toLowerCase message
                 in if \<not> includesStr messageLower ''product added''
                       \<and> \<not> includesStr messageLower ''added''
                    then (case accept dialog of
                            (Inl e, dialog') \<Rightarrow> (Inl e, Some dialog')
                          | (Inr u, dialog') \<Rightarrow>
                              (Inl (''Unexpected dialog message: '' @ message
                                    @ ''. Expected: Product added''), Some dialog'))
                    else (case accept dialog of
                            (Inl e, dialog') \<Rightarrow> (Inl e, Some dialog')
                          | (Inr u, dialog') \<Rightarrow> (Inr (), Some dialog')))) of
        (Inl errorMessage, d) \<Rightarrow>
          (Inl (''Add to cart success verification failed: '' @ errorMessage @ ''. ''
                @ ''Please verify the product was added successfully.''), d)
      | (Inr u, d) \<Rightarrow> (Inr u, d))"

text \<open>
  The steps \<open>I add the product to cart\<close> and \<open>a success message should appear\<close> of the
  step definitions. The first awaits the promise of \<open>addProductToCart\<close> and stores its
  value; when the promise is rejected the step throws and the scenario ends there. The
  second hands the stored value, a dialog, to \<open>verifyAddToCartSuccess\<close>, where the \<open>await\<close>
  of a value that is not a promise yields the value.
\<close>

definition addToCartSteps :: "caseMapping \<Rightarrow> cartPage \<Rightarrow> unit result \<times> dialog option" where
  "addToCartSteps toLowerCase pg =
     (case addProductToCart pg of
        Inl e \<Rightarrow> (Inl e, None)
      | Inr dialog \<Rightarrow> verifyAddToCartSuccess toLowerCase (Inr dialog))"

definition navigateToCart :: "cartPage \<Rightarrow> unit result" where
  "navigateToCart pg =
     (case (case clickElement (clickCartLink pg) (Some ''Click cart link'') of
              Inl e \<Rightarrow> Inl e
            | Inr u \<Rightarrow> verifyVisible (cartTableVisible pg) (Some ''Cart table'')) of
        Inl errorMessage \<Rightarrow> Inl (''Navigation to cart failed: '' @ errorMessage)
      | Inr u \<Rightarrow> Inr u)"

text \<open>
  \<open>eqMessage received expected\<close> is the message of the error that
  \<open>expect(received).toEqual(expected)\<close> throws.
\<close>

definition verifyCartItems :: "matcherMessage \<Rightarrow> cartPage \<Rightarrow> int \<Rightarrow> unit result" where
  "verifyCartItems eqMessage pg expectedItemCount =
     (case (case navigateToCart pg of
              Inl e \<Rightarrow> Inl e
            | Inr u \<Rightarrow>
                (case verifyVisible (cartItemsVisible pg) (Some ''Cart items'') of
                   Inl e \<Rightarrow> Inl e
                 | Inr u \<Rightarrow>
                     (case getCount (cartItemsCount pg) (Some ''Cart items'') of
                        Inl e \<Rightarrow> Inl e
                      | Inr count \<Rightarrow>
                          (if int count = expectedItemCount then Inr ()
                           else Inl (eqMessage (int count) expectedItemCount))))) of
        Inl errorMessage \<Rightarrow>
          Inl (''Cart verification failed: '' @ errorMessage @ ''. ''
               @ ''Expected at least '' @ showInt expectedItemCount @ '' item(s) in cart.'')
      | Inr u \<Rightarrow> Inr u)"

section \<open>Authentication helper\<close>

record credentials =
  username :: string
  password :: string

record loginPage =
  clickLoginLink :: "unit result"
  fillUsername :: "string \<Rightarrow> unit result"
  fillPassword :: "string \<Rightarrow> unit result"
  loginDialogWait :: "dialog result"
  clickLoginButton :: "unit result"

text \<open>Steps 3 to 5 of \<open>login\<close>, after the credentials have been typed.\<close>

definition submitLogin :: "caseMapping \<Rightarrow> loginPage \<Rightarrow> unit result \<times> dialog option" where
  "submitLogin toLowerCase pg =
     (let dialogPromise = catchNull (loginDialogWait pg) in
      case clickElement (clickLoginButton pg) (Some ''Click login button'') of
        Inl e \<Rightarrow> (Inl e, dialogPromise)
      | Inr u \<Rightarrow>
          (case dialogPromise of
             None \<Rightarrow> (Inr (), None)
           | Some dialog \<Rightarrow>
               (let message = message dialog in
                case accept dialog of
                  (Inl e, dialog') \<Rightarrow> (Inl e, Some dialog')
                | (Inr u, dialog') \<Rightarrow>
                    (if includesStr (toLowerCase message) ''wrong password''
                        \<or> includesStr (toLowerCase message) ''user does not exist''
                     then (Inl (''Login failed: '' @ message), Some dialog')
                     else (Inr (), Some dialog')))))"

definition login ::
  "caseMapping \<Rightarrow> loginPage \<Rightarrow> credentials \<Rightarrow> unit result \<times> dialog option" where
  "login toLowerCase pg credentials =
     (case (case clickElement (clickLoginLink pg) (Some ''Click login link'') of
              Inl e \<Rightarrow> (Inl e, None)
            | Inr u \<Rightarrow>
                (case fillInput (fillUsername pg (username credentials)) (Some ''Username'') of
                   Inl e \<Rightarrow> (Inl e, None)
                 | Inr u \<Rightarrow>
                     (case fillInput (fillPassword pg (password credentials)) (Some ''Password'') of
                        Inl e \<Rightarrow> (Inl e, None)
                      | Inr u \<Rightarrow> submitLogin toLowerCase pg))) of
        (Inl errorMessage, d) \<Rightarrow>
          (Inl (''Login failed for user '' @ [CHR 0x22] @ username credentials @ [CHR 0x22]
                @ '': '' @ errorMessage @ ''. ''
                @ ''Please verify credentials and that the site is accessible.''), d)
      | (Inr u, d) \<Rightarrow> (Inr u, d))"

section \<open>Browser lifecycle\<close>

text \<open>
  The module-level variables \<open>browser\<close>, \<open>context\<close> and \<open>page\<close> are the first three fields
  of the state; \<open>None\<close> is \<open>null\<close>. The state also records every call made to Playwright
  and every call made to \<open>logger\<close>. What Playwright answers is an oracle: from the calls
  made so far and the call at hand to a thrown error or a handle (the handle that a
  \<open>close\<close> call answers is not read). The options handed to \<open>launch\<close> and \<open>newContext\<close> come
  from the configuration and are not part of a call.
\<close>

type_synonym handle = nat

datatype launcher = Chromium | Firefox | Webkit

datatype call =
    Launch launcher
  | NewContext handle
  | NewPage handle
  | ClosePage handle
  | CloseContext handle
  | CloseBrowser handle

datatype logEntry =
    LogInfo string
  | LogDebug string
  | LogError string string

type_synonym driver = "call list \<Rightarrow> call \<Rightarrow> handle result"

record session =
  browser :: "handle option"
  browserContext :: "handle option"
  page :: "handle option"
  calls :: "call list"
  logs :: "logEntry list"

definition getBrowserLauncher :: "string \<Rightarrow> launcher" where
  "getBrowserLauncher channel =
     (if channel = ''firefox'' then Firefox
      else if channel = ''webkit'' then Webkit
      else Chromium)"

definition invoke :: "driver \<Rightarrow> call \<Rightarrow> session \<Rightarrow> handle result \<times> session" where
  "invoke drv c s = (drv (calls s) c, s\<lparr>calls := calls s @ [c]\<rparr>)"

definition logTo :: "logEntry \<Rightarrow> session \<Rightarrow> session" where
  "logTo entry s = s\<lparr>logs := logs s @ [entry]\<rparr>"

text \<open>The three \<open>if\<close> statements of \<open>initializeBrowser\<close>.\<close>

definition launchIfMissing :: "driver \<Rightarrow> string \<Rightarrow> session \<Rightarrow> unit result \<times> session" where
  "launchIfMissing drv channel s =
     (if browser s = None then
        (case invoke drv (Launch (getBrowserLauncher channel)) s of
           (Inl e, s') \<Rightarrow> (Inl e, s')
         | (Inr b, s') \<Rightarrow>
             (Inr (), logTo (LogInfo (''Browser launched: '' @ channel)) (s'\<lparr>browser := Some b\<rparr>)))
      else (Inr (), s))"

definition newContextIfMissing :: "driver \<Rightarrow> session \<Rightarrow> unit result \<times> session" where
  "newContextIfMissing drv s =
     (if browserContext s = None then
        (case browser s of
           None \<Rightarrow> (Inl ''TypeError: browser is null'', s)
         | Some b \<Rightarrow>
             (case invoke drv (NewContext b) s of
                (Inl e, s') \<Rightarrow> (Inl e, s')
              | (Inr c, s') \<Rightarrow>
                  (Inr (), logTo (LogDebug ''Browser context created'')
                             (s'\<lparr>browserContext := Some c\<rparr>))))
      else (Inr (), s))"

definition newPageIfMissing :: "driver \<Rightarrow> session \<Rightarrow> unit result \<times> session" where
  "newPageIfMissing drv s =
     (if page s = None then
        (case browserContext s of
           None \<Rightarrow> (Inl ''TypeError: context is null'', s)
         | Some c \<Rightarrow>
             (case invoke drv (NewPage c) s of
                (Inl e, s') \<Rightarrow> (Inl e, s')
              | (Inr p, s') \<Rightarrow>
                  (Inr (), logTo (LogDebug ''New page created'') (s'\<lparr>page := Some p\<rparr>))))
      else (Inr (), s))"

text \<open>The \<open>catch\<close> clause of \<open>initializeBrowser\<close>: log and throw the same error again.\<close>

definition initializeFailed :: "string \<Rightarrow> session \<Rightarrow> handle option result \<times> session" where
  "initializeFailed e s = (Inl e, logTo (LogError ''Failed to initialize browser'' e) s)"

definition initializeBrowser ::
  "driver \<Rightarrow> string \<Rightarrow> session \<Rightarrow> handle option result \<times> session" where
  "initializeBrowser drv channel s =
     (case launchIfMissing drv channel s of
        (Inl e, s1) \<Rightarrow> initializeFailed e s1
      | (Inr u, s1) \<Rightarrow>
          (case newContextIfMissing drv s1 of
             (Inl e, s2) \<Rightarrow> initializeFailed e s2
           | (Inr u, s2) \<Rightarrow>
               (case newPageIfMissing drv s2 of
                  (Inl e, s3) \<Rightarrow> initializeFailed e s3
                | (Inr u, s3) \<Rightarrow> (Inr (page s3), s3))))"

text \<open>The three \<open>if\<close> statements of \<open>cleanupBrowser\<close>.\<close>

definition closePageIfSet :: "driver \<Rightarrow> session \<Rightarrow> unit result \<times> session" where
  "closePageIfSet drv s =
     (case page s of
        None \<Rightarrow> (Inr (), s)
      | Some p \<Rightarrow>
          (case invoke drv (ClosePage p) s of
             (Inl e, s') \<Rightarrow> (Inl e, s')
           | (Inr u, s') \<Rightarrow> (Inr (), logTo (LogDebug ''Page closed'') (s'\<lparr>page := None\<rparr>))))"

definition closeContextIfSet :: "driver \<Rightarrow> session \<Rightarrow> unit result \<times> session" where
  "closeContextIfSet drv s =
     (case browserContext s of
        None \<Rightarrow> (Inr (), s)
      | Some c \<Rightarrow>
          (case invoke drv (CloseContext c) s of
             (Inl e, s') \<Rightarrow> (Inl e, s')
           | (Inr u, s') \<Rightarrow>
               (Inr (), logTo (LogDebug ''Browser context closed'') (s'\<lparr>browserContext := None\<rparr>))))"

definition closeBrowserIfSet :: "driver \<Rightarrow> session \<Rightarrow> unit result \<times> session" where
  "closeBrowserIfSet drv s =
     (case browser s of
        None \<Rightarrow> (Inr (), s)
      | Some b \<Rightarrow>
          (case invoke drv (CloseBrowser b) s of
             (Inl e, s') \<Rightarrow> (Inl e, s')
           | (Inr u, s') \<Rightarrow> (Inr (), logTo (LogInfo ''Browser closed'') (s'\<lparr>browser := None\<rparr>))))"

text \<open>The \<open>catch\<close> clause of \<open>cleanupBrowser\<close>: log, do not throw.\<close>

definition cleanupFailed :: "string \<Rightarrow> session \<Rightarrow> unit result \<times> session" where
  "cleanupFailed e s = (Inr (), logTo (LogError ''Error during browser cleanup'' e) s)"

definition cleanupBrowser :: "driver \<Rightarrow> session \<Rightarrow> unit result \<times> session" where
  "cleanupBrowser drv s =
     (case closePageIfSet drv s of
        (Inl e, s1) \<Rightarrow> cleanupFailed e s1
      | (Inr u, s1) \<Rightarrow>
          (case closeContextIfSet drv s1 of
             (Inl e, s2) \<Rightarrow> cleanupFailed e s2
           | (Inr u, s2) \<Rightarrow>
               (case closeBrowserIfSet drv s2 of
                  (Inl e, s3) \<Rightarrow> cleanupFailed e s3
                | (Inr u, s3) \<Rightarrow> (Inr (), s3))))"

section \<open>Teardown as a run of calls\<close>

text \<open>
  The teardown calls that are due in a state, in the order page, context, browser: one
  call for each handle that is set.
\<close>

definition teardownOrder :: "session \<Rightarrow> call list" where
  "teardownOrder s =
     (case page s of None \<Rightarrow> [] | Some p \<Rightarrow> [ClosePage p])
     @ (case browserContext s of None \<Rightarrow> [] | Some c \<Rightarrow> [CloseContext c])
     @ (case browser s of None \<Rightarrow> [] | Some b \<Rightarrow> [CloseBrowser b])"

text \<open>
  Making a list of calls one after the other and stopping at the first that throws. The
  result is the calls made, the calls still due (the one that threw is the first of them),
  and the error when there was one.
\<close>

fun untilFirstThrow ::
  "driver \<Rightarrow> call list \<Rightarrow> call list \<Rightarrow> call list \<times> call list \<times> string option" where
  "untilFirstThrow drv made [] = (made, [], None)"
| "untilFirstThrow drv made (c # due) =
     (case drv made c of
        Inl e \<Rightarrow> (made @ [c], c # due, Some e)
      | Inr h \<Rightarrow> untilFirstThrow drv (made @ [c]) due)"

text \<open>The entries that \<open>logger.error\<close> writes.\<close>

fun isErrorEntry :: "logEntry \<Rightarrow> bool" where
  "isErrorEntry (LogError m e) = True"
| "isErrorEntry entry = False"

section \<open>Sample inputs\<close>

text \<open>
  Messages in the format of the assertion library, for
  \<open>expect(received).toBeGreaterThanOrEqual(expected)\<close> and \<open>expect(received).toEqual(expected)\<close>.
\<close>

definition sampleGeMessage :: matcherMessage where
  "sampleGeMessage received expected =
     ''expect(received).toBeGreaterThanOrEqual(expected)'' @ [CHR 0x0A, CHR 0x0A]
     @ ''Expected: >= '' @ showInt expected @ [CHR 0x0A]
     @ ''Received:    '' @ showInt received"

definition sampleEqMessage :: matcherMessage where
  "sampleEqMessage received expected =
     ''expect(received).toEqual(expected)'' @ [CHR 0x0A, CHR 0x0A]
     @ ''Expected: '' @ showInt expected @ [CHR 0x0A]
     @ ''Received: '' @ showInt received"

text \<open>Responses to the product list request.\<close>

definition notFound :: "int response" where
  "notFound = \<lparr>url = ''https://api.demoblaze.com/entries'', status = 404,
               contentType = Some ''text/html'', jsonBody = Inl ''Unexpected token''\<rparr>"

definition entriesOk :: "int response" where
  "entriesOk = \<lparr>url = ''https://api.demoblaze.com/entries'', status = 200,
               contentType = Some ''application/json'',
               jsonBody = Inr (JObj [(''Items'', JArr [JObj [(''id'', JNum 1)]])])\<rparr>"

definition entriesLater :: "int response" where
  "entriesLater = \<lparr>url = ''https://api.demoblaze.com/entries?page=2'', status = 200,
               contentType = Some ''application/json'', jsonBody = Inr (JArr [])\<rparr>"

text \<open>A cart page that shows two rows.\<close>

definition twoRowCart :: cartPage where
  "twoRowCart = \<lparr>clickAddToCart = Inr (), cartDialogWait = Inl ''Timeout 10000ms exceeded'',
                 clickCartLink = Inr (), cartTableVisible = Inr (), cartItemsVisible = Inr (),
                 cartItemsCount = Inr 2\<rparr>"

text \<open>Login pages: no dialog, a dialog that is not a login error, a login error.\<close>

definition testUser :: credentials where
  "testUser = \<lparr>username = ''test'', password = ''test''\<rparr>"

definition captchaDialog :: dialog where
  "captchaDialog = \<lparr>message = ''Please complete the captcha'', acceptOutcome = Inr (),
                    acceptCalls = 0\<rparr>"

definition wrongPasswordDialog :: dialog where
  "wrongPasswordDialog = \<lparr>message = ''Wrong password.'', acceptOutcome = Inr (),
                          acceptCalls = 0\<rparr>"

definition loginPageWith :: "dialog result \<Rightarrow> loginPage" where
  "loginPageWith settled =
     \<lparr>clickLoginLink = Inr (), fillUsername = (\<lambda>v. Inr ()), fillPassword = (\<lambda>v. Inr ()),
      loginDialogWait = settled, clickLoginButton = Inr ()\<rparr>"

text \<open>Dialogs after \<open>Add to cart\<close>, and a page on which no dialog fires.\<close>

definition soldOutDialog :: dialog where
  "soldOutDialog = \<lparr>message = ''Sold out'', acceptOutcome = Inr (), acceptCalls = 0\<rparr>"

definition staleDialog :: dialog where
  "staleDialog = \<lparr>message = ''Sold out'',
                  acceptOutcome = Inl ''Cannot accept dialog which is already handled!'',
                  acceptCalls = 0\<rparr>"

definition silentProductPage :: cartPage where
  "silentProductPage =
     \<lparr>clickAddToCart = Inr (), cartDialogWait = Inl ''Timeout 10000ms exceeded'',
      clickCartLink = Inr (), cartTableVisible = Inr (), cartItemsVisible = Inr (),
      cartItemsCount = Inr 0\<rparr>"

text \<open>A Playwright that never throws and numbers its handles by the calls made.\<close>

definition countingDriver :: driver where
  "countingDriver made c = Inr (Suc (length made))"

text \<open>A Playwright whose \<open>page.close()\<close> throws.\<close>

definition pageCloseThrows :: driver where
  "pageCloseThrows made c =
     (case c of
        ClosePage p \<Rightarrow> Inl ''Target page, context or browser has been closed''
      | _ \<Rightarrow> Inr (Suc (length made)))"

definition unstarted :: session where
  "unstarted = \<lparr>browser = None, browserContext = None, page = None, calls = [], logs = []\<rparr>"

definition pageReady :: session where
  "pageReady = \<lparr>browser = Some 1, browserContext = Some 2, page = Some 3,
                calls = [Launch Chromium, NewContext 1, NewPage 2],
                logs = [LogInfo ''Browser launched: chromium'', LogDebug ''Browser context created'',
                        LogDebug ''New page created'']\<rparr>"

section \<open>Properties\<close>

lemma includes_iff: "includesStr h n \<longleftrightarrow> (\<exists>p s. h = p @ n @ s)"
proof (induction h)
  case Nil
  then show ?case by auto
next
  case (Cons c cs)
  have "sublist n (c # cs) \<longleftrightarrow> prefix n (c # cs) \<or> sublist n cs"
    by (rule sublist_Cons_right)
  with Cons show ?case by (simp add: sublist_def)
qed

lemma includesStr_append_mid:
  assumes "includesStr m n"
  shows "includesStr (a @ m @ b) n"
proof -
  from assms obtain p s where "m = p @ n @ s" by (auto simp: includes_iff)
  then have "a @ m @ b = (a @ p) @ n @ (s @ b)" by simp
  then show ?thesis unfolding includes_iff by blast
qed

lemma showInt_4: "showInt 4 = ''4''"
  by (simp add: showInt_def showNat.simps digitChar_def)

lemma showInt_5: "showInt 5 = ''5''"
  by (simp add: showInt_def showNat.simps digitChar_def)

subsection \<open>Product list validation\<close>

lemma find_isArray_first:
  "\<forall>v \<in> set pre. \<not> isArray v \<Longrightarrow> find isArray (pre @ JArr xs # post) = Some (JArr xs)"
  by (induction pre) auto

lemma find_isArray_none:
  "\<forall>v \<in> set vs. \<not> isArray v \<Longrightarrow> find isArray vs = None"
  by (induction vs) auto

lemma selectProducts_array: "selectProducts (JArr xs) = Inr xs"
  by (simp add: selectProducts_def)

lemma selectProducts_object_first:
  assumes "\<forall>v \<in> set (objectValues pre). \<not> isArray v"
  shows "selectProducts (JObj (pre @ (k, JArr xs) # post)) = Inr xs"
  using find_isArray_first [OF assms [unfolded objectValues_def], of xs "map snd post"]
  by (simp add: selectProducts_def objectValues_def)

lemma selectProducts_object_none:
  assumes "\<forall>v \<in> set (objectValues fs). \<not> isArray v"
  shows "\<exists>e. selectProducts (JObj fs) = Inl e"
  using find_isArray_none [OF assms]
  by (simp add: selectProducts_def)

lemma selectProducts_other:
  assumes "\<not> isArray body" "\<not> isObject body"
  shows "\<exists>e. selectProducts body = Inl e"
  using assms by (cases body) (simp_all add: selectProducts_def)

lemma validationFailed_Inl:
  "validationFailed n (Inl e) =
     Inl (''Product list validation failed: '' @ e @ ''. ''
          @ ''Expected at least '' @ showInt n @ '' products in the response.'')"
  by (simp add: validationFailed_def)

text \<open>
  C3. \<open>validateProductListResponse\<close> takes the product collection from the body as follows.
  A body that is an array is the collection. In a body that is an object, the collection
  is the first field, in the order of \<open>Object.values\<close>, whose value is an array: the fields
  before it (\<open>pre\<close>) hold no array. An object without an array-valued field, and a body
  that is neither an array nor an object (\<open>null\<close> included), fail with the validation
  error. On \<open>{status: "ok", items: [{}, {}]}\<close> the collection is \<open>items\<close>, and its
  length 2 is compared with the minimum.
\<close>

theorem validateProductListResponse_extraction:
  "validateProductListResponse m (JArr xs) n = validationFailed n (checkProducts m xs n)
   \<and> ((\<forall>v \<in> set (objectValues pre). \<not> isArray v) \<longrightarrow>
        validateProductListResponse m (JObj (pre @ (k, JArr xs) # post)) n
          = validationFailed n (checkProducts m xs n))
   \<and> ((\<forall>v \<in> set (objectValues fs). \<not> isArray v) \<longrightarrow>
        (\<exists>e. validateProductListResponse m (JObj fs) n
               = Inl (''Product list validation failed: '' @ e)))
   \<and> (\<not> isArray body \<and> \<not> isObject body \<longrightarrow>
        (\<exists>e. validateProductListResponse m body n
               = Inl (''Product list validation failed: '' @ e)))
   \<and> validateProductListResponse m
        (JObj [(''status'', JStr ''ok''), (''items'', JArr [JObj [], JObj []])]) n
       = (if n \<le> 2 then Inr ()
          else Inl (''Product list validation failed: '' @ m 2 n @ ''. ''
                    @ ''Expected at least '' @ showInt n @ '' products in the response.''))"
proof (intro conjI impI)
  show "validateProductListResponse m (JArr xs) n = validationFailed n (checkProducts m xs n)"
    by (simp add: validateProductListResponse_def selectProducts_array)
next
  assume "\<forall>v \<in> set (objectValues pre). \<not> isArray v"
  then show "validateProductListResponse m (JObj (pre @ (k, JArr xs) # post)) n
          = validationFailed n (checkProducts m xs n)"
    by (simp add: validateProductListResponse_def selectProducts_object_first)
next
  assume "\<forall>v \<in> set (objectValues fs). \<not> isArray v"
  from selectProducts_object_none [OF this] obtain e where "selectProducts (JObj fs) = Inl e" ..
  then show "\<exists>e. validateProductListResponse m (JObj fs) n
               = Inl (''Product list validation failed: '' @ e)"
    by (simp add: validateProductListResponse_def validationFailed_Inl)
next
  assume "\<not> isArray body \<and> \<not> isObject body"
  with selectProducts_other obtain e where "selectProducts body = Inl e" by blast
  then show "\<exists>e. validateProductListResponse m body n
               = Inl (''Product list validation failed: '' @ e)"
    by (simp add: validateProductListResponse_def validationFailed_Inl)
next
  show "validateProductListResponse m
        (JObj [(''status'', JStr ''ok''), (''items'', JArr [JObj [], JObj []])]) n
       = (if n \<le> 2 then Inr ()
          else Inl (''Product list validation failed: '' @ m 2 n @ ''. ''
                    @ ''Expected at least '' @ showInt n @ '' products in the response.''))"
    by (simp add: validateProductListResponse_def selectProducts_def objectValues_def
        checkProducts_def validationFailed_def)
qed

theorem validateProductListResponse_extraction_witness:
  "\<not> list_ex isArray (objectValues [(''status'', JStr ''ok''), (''total'', JNum (2::int))])
   \<and> validateProductListResponse sampleGeMessage
        (JObj ([(''status'', JStr ''ok''), (''total'', JNum (2::int))]
               @ (''items'', JArr [JObj [], JObj []]) # [(''more'', JArr [])])) 2
       = Inr ()
   \<and> (\<exists>e. validateProductListResponse sampleGeMessage
              (JObj [(''status'', JStr ''ok''), (''total'', JNum (2::int))]) 2
            = Inl (''Product list validation failed: '' @ e))
   \<and> \<not> isArray (JStr ''ok'' :: int json) \<and> \<not> isObject (JStr ''ok'' :: int json)
   \<and> (\<exists>e. validateProductListResponse sampleGeMessage (JStr ''ok'' :: int json) 2
            = Inl (''Product list validation failed: '' @ e))"
proof -
  let ?pre = "[(''status'', JStr ''ok''), (''total'', JNum (2::int))]"
  note extraction =
    validateProductListResponse_extraction
      [of sampleGeMessage "[JObj [], JObj []]" 2 ?pre "''items''" "[(''more'', JArr [])]"
          ?pre "JStr ''ok''"]
  have h: "\<forall>v \<in> set (objectValues ?pre). \<not> isArray v"
    by (simp add: objectValues_def)
  have c: "validationFailed 2 (checkProducts sampleGeMessage [JObj [], JObj [] :: int json] 2)
            = Inr ()"
    by (simp add: validationFailed_def checkProducts_def)
  have "validateProductListResponse sampleGeMessage
          (JObj (?pre @ (''items'', JArr [JObj [], JObj []]) # [(''more'', JArr [])])) 2
        = validationFailed 2 (checkProducts sampleGeMessage [JObj [], JObj [] :: int json] 2)"
    using extraction h by blast
  also note c
  finally have first: "validateProductListResponse sampleGeMessage
          (JObj (?pre @ (''items'', JArr [JObj [], JObj []]) # [(''more'', JArr [])])) 2
        = Inr ()" .
  have none: "\<exists>e. validateProductListResponse sampleGeMessage (JObj ?pre) 2
                  = Inl (''Product list validation failed: '' @ e)"
    using extraction h by blast
  have s1: "\<not> isArray (JStr ''ok'' :: int json)" and s2: "\<not> isObject (JStr ''ok'' :: int json)"
    by simp_all
  have other: "\<exists>e. validateProductListResponse sampleGeMessage (JStr ''ok'' :: int json) 2
                   = Inl (''Product list validation failed: '' @ e)"
    using extraction s1 s2 by blast
  have h': "\<not> list_ex isArray (objectValues ?pre)"
    by (simp add: objectValues_def)
  from h' first none s1 s2 other show ?thesis by blast
qed

text \<open>
  C4. On an array of five empty objects with \<open>minProducts = 5\<close> the call returns. On an
  array of four empty objects it throws; the message is the one of the failed
  \<open>toBeGreaterThanOrEqual\<close> assertion on the found count 4 and the minimum 5, between the
  prefix and the suffix of the \<open>catch\<close> clause. The suffix names the required count 5, and
  the message names the found count 4 whenever the message of the assertion does.
\<close>

theorem validateProductListResponse_count:
  "validateProductListResponse m (JArr [JObj [], JObj [], JObj [], JObj [], JObj []]) 5 = Inr ()
   \<and> validateProductListResponse m (JArr [JObj [], JObj [], JObj [], JObj []]) 5
       = Inl (''Product list validation failed: '' @ m 4 5
              @ ''. Expected at least 5 products in the response.'')
   \<and> includesStr (''Product list validation failed: '' @ m 4 5
              @ ''. Expected at least 5 products in the response.'') (showInt 5)
   \<and> (includesStr (m 4 5) (showInt 4) \<longrightarrow>
        includesStr (''Product list validation failed: '' @ m 4 5
              @ ''. Expected at least 5 products in the response.'') (showInt 4))"
proof (intro conjI impI)
  show "validateProductListResponse m (JArr [JObj [], JObj [], JObj [], JObj [], JObj []]) 5
          = Inr ()"
    by (simp add: validateProductListResponse_def selectProducts_def checkProducts_def
        validationFailed_def)
  show "validateProductListResponse m (JArr [JObj [], JObj [], JObj [], JObj []]) 5
       = Inl (''Product list validation failed: '' @ m 4 5
              @ ''. Expected at least 5 products in the response.'')"
    by (simp add: validateProductListResponse_def selectProducts_def checkProducts_def
        validationFailed_def showInt_5)
  have "''Product list validation failed: '' @ m 4 5
              @ ''. Expected at least 5 products in the response.''
        = (''Product list validation failed: '' @ m 4 5 @ ''. Expected at least '') @ ''5''
           @ '' products in the response.''" by simp
  then show "includesStr (''Product list validation failed: '' @ m 4 5
              @ ''. Expected at least 5 products in the response.'') (showInt 5)"
    unfolding includes_iff showInt_5 by blast
  assume "includesStr (m 4 5) (showInt 4)"
  then show "includesStr (''Product list validation failed: '' @ m 4 5
              @ ''. Expected at least 5 products in the response.'') (showInt 4)"
    by (rule includesStr_append_mid)
qed

theorem validateProductListResponse_count_witness:
  "includesStr (sampleGeMessage 4 5) (showInt 4)
   \<and> includesStr (''Product list validation failed: '' @ sampleGeMessage 4 5
              @ ''. Expected at least 5 products in the response.'') (showInt 4)"
proof -
  have h: "includesStr (sampleGeMessage 4 5) (showInt 4)"
    by (simp add: sampleGeMessage_def showInt_5 showInt_4)
  with validateProductListResponse_count [of sampleGeMessage] show ?thesis by blast
qed

subsection \<open>Network interception\<close>

lemma responseMatches_iff:
  "responseMatches endpoint st r \<longleftrightarrow> (\<exists>p s. url r = p @ endpoint @ s) \<and> status r = st"
  by (simp add: responseMatches_def includes_iff)

lemma find_split:
  assumes "\<forall>y \<in> set pre. \<not> P y" and "P x"
  shows "find P (pre @ x # post) = Some x"
  using assms by (induction pre) auto

lemma find_SomeD_split:
  assumes "find P xs = Some x"
  shows "\<exists>pre post. xs = pre @ x # post \<and> P x \<and> (\<forall>y \<in> set pre. \<not> P y)"
  using assms
proof (induction xs)
  case Nil
  then show ?case by simp
next
  case (Cons a xs)
  show ?case
  proof (cases "P a")
    case True
    with Cons.prems have "a = x" by simp
    with True have "a # xs = [] @ x # xs \<and> P x \<and> (\<forall>y \<in> set []. \<not> P y)" by simp
    then show ?thesis by blast
  next
    case False
    with Cons.prems have "find P xs = Some x" by simp
    from Cons.IH [OF this] obtain pre post
      where "xs = pre @ x # post" "P x" "\<forall>y \<in> set pre. \<not> P y" by blast
    with False have "a # xs = (a # pre) @ x # post \<and> P x \<and> (\<forall>y \<in> set (a # pre). \<not> P y)"
      by simp
    then show ?thesis by blast
  qed
qed

lemma waitForResponse_resolves_iff:
  "waitForResponse tm P rs = Inr r \<longleftrightarrow>
     (\<exists>pre post. rs = pre @ r # post \<and> P r \<and> (\<forall>x \<in> set pre. \<not> P x))"
proof
  assume "waitForResponse tm P rs = Inr r"
  then have "find P rs = Some r"
    by (simp add: waitForResponse_def split: option.splits)
  then show "\<exists>pre post. rs = pre @ r # post \<and> P r \<and> (\<forall>x \<in> set pre. \<not> P x)"
    by (rule find_SomeD_split)
next
  assume "\<exists>pre post. rs = pre @ r # post \<and> P r \<and> (\<forall>x \<in> set pre. \<not> P x)"
  then obtain pre post where "rs = pre @ r # post" "P r" "\<forall>x \<in> set pre. \<not> P x" by blast
  then show "waitForResponse tm P rs = Inr r"
    by (simp add: waitForResponse_def find_split)
qed

lemma waitForResponse_rejects:
  assumes "\<forall>x \<in> set rs. \<not> P x"
  shows "waitForResponse tm P rs = Inl tm"
proof -
  from assms have "find P rs = None" by (simp add: find_None_iff)
  then show ?thesis by (simp add: waitForResponse_def)
qed

text \<open>
  C5. The predicate of \<open>interceptApiRequest\<close> accepts a response exactly when its URL
  contains the endpoint and its status is the expected status. The call returns a body
  only as the body of the first response in order of arrival that the predicate accepts,
  and it does return that body when there is such a response and its body parses;
  responses after it play no part. A response with status 404 is not accepted for
  \<open>("/entries", 200)\<close>, and when every response whose URL contains \<open>/entries\<close> has status
  404 the wait times out and the call throws.
\<close>

theorem interceptApiRequest_matching:
  "(responseMatches endpoint st r \<longleftrightarrow> (\<exists>p s. url r = p @ endpoint @ s) \<and> status r = st)
   \<and> (interceptApiRequest tm rs endpoint st = Inr body \<longrightarrow>
        (\<exists>pre x post. rs = pre @ x # post \<and> responseMatches endpoint st x
           \<and> (\<forall>y \<in> set pre. \<not> responseMatches endpoint st y) \<and> jsonBody x = Inr body))
   \<and> ((\<forall>y \<in> set pre. \<not> responseMatches endpoint st y) \<and> responseMatches endpoint st r
         \<and> jsonBody r = Inr body \<longrightarrow>
        interceptApiRequest tm (pre @ r # post) endpoint st = Inr body)
   \<and> (status r = 404 \<longrightarrow> \<not> responseMatches ''/entries'' 200 r)
   \<and> ((\<forall>y \<in> set rs. includesStr (url y) ''/entries'' \<longrightarrow> status y = 404) \<longrightarrow>
        interceptApiRequest tm rs ''/entries'' 200
          = Inl (''API interception failed for /entries: '' @ tm @ ''. ''
                 @ ''Please verify the endpoint is correct and the API is accessible.''))"
proof (intro conjI impI)
  show "responseMatches endpoint st r \<longleftrightarrow> (\<exists>p s. url r = p @ endpoint @ s) \<and> status r = st"
    by (rule responseMatches_iff)
next
  assume ok: "interceptApiRequest tm rs endpoint st = Inr body"
  then obtain x where w: "waitForResponse tm (responseMatches endpoint st) rs = Inr x"
    and b: "jsonBody x = Inr body"
    by (auto simp: interceptApiRequest_def split: sum.splits)
  from w obtain pre post where "rs = pre @ x # post" "responseMatches endpoint st x"
    "\<forall>y \<in> set pre. \<not> responseMatches endpoint st y"
    unfolding waitForResponse_resolves_iff by blast
  with b show "\<exists>pre x post. rs = pre @ x # post \<and> responseMatches endpoint st x
           \<and> (\<forall>y \<in> set pre. \<not> responseMatches endpoint st y) \<and> jsonBody x = Inr body"
    by blast
next
  assume h: "(\<forall>y \<in> set pre. \<not> responseMatches endpoint st y) \<and> responseMatches endpoint st r
         \<and> jsonBody r = Inr body"
  then have "waitForResponse tm (responseMatches endpoint st) (pre @ r # post) = Inr r"
    unfolding waitForResponse_resolves_iff by blast
  with h show "interceptApiRequest tm (pre @ r # post) endpoint st = Inr body"
    by (simp add: interceptApiRequest_def)
next
  assume "status r = 404"
  then show "\<not> responseMatches ''/entries'' 200 r"
    by (simp add: responseMatches_def)
next
  assume "\<forall>y \<in> set rs. includesStr (url y) ''/entries'' \<longrightarrow> status y = 404"
  then have "\<forall>y \<in> set rs. \<not> responseMatches ''/entries'' 200 y"
    by (auto simp: responseMatches_def)
  then have "waitForResponse tm (responseMatches ''/entries'' 200) rs = Inl tm"
    by (rule waitForResponse_rejects)
  then show "interceptApiRequest tm rs ''/entries'' 200
          = Inl (''API interception failed for /entries: '' @ tm @ ''. ''
                 @ ''Please verify the endpoint is correct and the API is accessible.'')"
    by (simp add: interceptApiRequest_def)
qed


theorem interceptApiRequest_matching_witness:
  "\<not> list_ex (responseMatches ''/entries'' 200) [notFound]
   \<and> responseMatches ''/entries'' 200 entriesOk
   \<and> interceptApiRequest ''Timeout 30000ms exceeded'' ([notFound] @ entriesOk # [entriesLater])
        ''/entries'' 200 = Inr (JObj [(''Items'', JArr [JObj [(''id'', JNum 1)]])])
   \<and> status notFound = 404
   \<and> interceptApiRequest ''Timeout 30000ms exceeded'' [notFound] ''/entries'' 200
          = Inl (''API interception failed for /entries: '' @ ''Timeout 30000ms exceeded'' @ ''. ''
                 @ ''Please verify the endpoint is correct and the API is accessible.'')"
proof -
  note matching =
    interceptApiRequest_matching
      [of "''/entries''" 200 notFound "''Timeout 30000ms exceeded''" "[notFound]"
          "JObj [(''Items'', JArr [JObj [(''id'', JNum 1)]])]" "[notFound]"]
  note matching' =
    interceptApiRequest_matching
      [of "''/entries''" 200 entriesOk "''Timeout 30000ms exceeded''" "[notFound]"
          "JObj [(''Items'', JArr [JObj [(''id'', JNum 1)]])]" "[notFound]" "[entriesLater]"]
  have s: "status notFound = 404" by (simp add: notFound_def)
  have n: "\<forall>y \<in> set [notFound]. \<not> responseMatches ''/entries'' 200 y"
    using matching s by simp
  have n': "\<not> list_ex (responseMatches ''/entries'' 200) [notFound]"
    using n by simp
  have m: "responseMatches ''/entries'' 200 entriesOk"
    by (simp add: responseMatches_def entriesOk_def)
  have b: "jsonBody entriesOk = Inr (JObj [(''Items'', JArr [JObj [(''id'', JNum 1)]])])"
    by (simp add: entriesOk_def)
  have first: "interceptApiRequest ''Timeout 30000ms exceeded'' ([notFound] @ entriesOk # [entriesLater])
        ''/entries'' 200 = Inr (JObj [(''Items'', JArr [JObj [(''id'', JNum 1)]])])"
    using matching' n m b by blast
  have all404: "\<forall>y \<in> set [notFound]. includesStr (url y) ''/entries'' \<longrightarrow> status y = 404"
    using s by simp
  have none: "interceptApiRequest ''Timeout 30000ms exceeded'' [notFound] ''/entries'' 200
          = Inl (''API interception failed for /entries: '' @ ''Timeout 30000ms exceeded'' @ ''. ''
                 @ ''Please verify the endpoint is correct and the API is accessible.'')"
    using matching all404 by blast
  from n' m first s none show ?thesis by blast
qed

subsection \<open>Cart verification\<close>

lemma navigateToCart_ok_iff:
  "navigateToCart pg = Inr () \<longleftrightarrow> clickCartLink pg = Inr () \<and> cartTableVisible pg = Inr ()"
  by (auto simp: navigateToCart_def clickElement_def verifyVisible_def split: sum.splits)

lemma verifyCartItems_ok_iff:
  "verifyCartItems m pg expected = Inr () \<longleftrightarrow>
     clickCartLink pg = Inr () \<and> cartTableVisible pg = Inr () \<and> cartItemsVisible pg = Inr ()
     \<and> (\<exists>n. cartItemsCount pg = Inr n \<and> int n = expected)"
proof -
  have "verifyCartItems m pg expected = Inr () \<longleftrightarrow>
     navigateToCart pg = Inr () \<and> cartItemsVisible pg = Inr ()
     \<and> (\<exists>n. cartItemsCount pg = Inr n \<and> int n = expected)"
    by (auto simp: verifyCartItems_def verifyVisible_def getCount_def split: sum.splits)
  then show ?thesis by (simp add: navigateToCart_ok_iff)
qed

lemma verifyCartItems_error_shape:
  assumes "verifyCartItems m pg expected \<noteq> Inr ()"
  shows "\<exists>e. verifyCartItems m pg expected
            = Inl (''Cart verification failed: '' @ e @ ''. ''
                   @ ''Expected at least '' @ showInt expected @ '' item(s) in cart.'')"
  using assms by (auto simp: verifyCartItems_def split: sum.splits if_splits)

lemma verifyCartItems_mismatch:
  assumes "clickCartLink pg = Inr ()" "cartTableVisible pg = Inr ()" "cartItemsVisible pg = Inr ()"
    and "cartItemsCount pg = Inr n" "int n \<noteq> expected"
  shows "verifyCartItems m pg expected
           = Inl (''Cart verification failed: '' @ m (int n) expected @ ''. ''
                  @ ''Expected at least '' @ showInt expected @ '' item(s) in cart.'')"
  using assms
  by (simp add: verifyCartItems_def navigateToCart_def clickElement_def verifyVisible_def
      getCount_def)

text \<open>
  C9. \<open>verifyCartItems\<close> returns exactly when the navigation and the visibility checks
  succeed and the number of cart rows equals \<open>expectedItemCount\<close>. With more rows than
  expected it throws, and the message it throws says \<open>Expected at least\<close> that many items.
\<close>

theorem verifyCartItems_exact_count:
  "(verifyCartItems m pg expected = Inr () \<longleftrightarrow>
      clickCartLink pg = Inr () \<and> cartTableVisible pg = Inr () \<and> cartItemsVisible pg = Inr ()
      \<and> (\<exists>n. cartItemsCount pg = Inr n \<and> int n = expected))
   \<and> (cartItemsCount pg = Inr n \<and> expected < int n \<longrightarrow>
        (\<exists>e. verifyCartItems m pg expected
               = Inl (''Cart verification failed: '' @ e @ ''. ''
                      @ ''Expected at least '' @ showInt expected @ '' item(s) in cart.'')))
   \<and> (clickCartLink pg = Inr () \<and> cartTableVisible pg = Inr () \<and> cartItemsVisible pg = Inr ()
        \<and> cartItemsCount pg = Inr n \<and> expected < int n \<longrightarrow>
        verifyCartItems m pg expected
          = Inl (''Cart verification failed: '' @ m (int n) expected @ ''. ''
                 @ ''Expected at least '' @ showInt expected @ '' item(s) in cart.''))"
proof (intro conjI impI)
  show "verifyCartItems m pg expected = Inr () \<longleftrightarrow>
      clickCartLink pg = Inr () \<and> cartTableVisible pg = Inr () \<and> cartItemsVisible pg = Inr ()
      \<and> (\<exists>n. cartItemsCount pg = Inr n \<and> int n = expected)"
    by (rule verifyCartItems_ok_iff)
next
  assume "cartItemsCount pg = Inr n \<and> expected < int n"
  then have "verifyCartItems m pg expected \<noteq> Inr ()"
    by (auto simp: verifyCartItems_ok_iff)
  then show "\<exists>e. verifyCartItems m pg expected
               = Inl (''Cart verification failed: '' @ e @ ''. ''
                      @ ''Expected at least '' @ showInt expected @ '' item(s) in cart.'')"
    by (rule verifyCartItems_error_shape)
next
  assume "clickCartLink pg = Inr () \<and> cartTableVisible pg = Inr () \<and> cartItemsVisible pg = Inr ()
        \<and> cartItemsCount pg = Inr n \<and> expected < int n"
  then show "verifyCartItems m pg expected
          = Inl (''Cart verification failed: '' @ m (int n) expected @ ''. ''
                 @ ''Expected at least '' @ showInt expected @ '' item(s) in cart.'')"
    by (simp add: verifyCartItems_mismatch)
qed

theorem verifyCartItems_exact_count_witness:
  "cartItemsCount twoRowCart = Inr 2
   \<and> verifyCartItems sampleEqMessage twoRowCart 1
       = Inl (''Cart verification failed: '' @ sampleEqMessage 2 1 @ ''. ''
              @ ''Expected at least '' @ showInt 1 @ '' item(s) in cart.'')
   \<and> verifyCartItems sampleEqMessage twoRowCart 2 = Inr ()"
proof -
  note exact1 = verifyCartItems_exact_count [of sampleEqMessage twoRowCart 1 2]
  note exact2 = verifyCartItems_exact_count [of sampleEqMessage twoRowCart 2 2]
  have env: "clickCartLink twoRowCart = Inr ()" "cartTableVisible twoRowCart = Inr ()"
    "cartItemsVisible twoRowCart = Inr ()" "cartItemsCount twoRowCart = Inr 2"
    by (simp_all add: twoRowCart_def)
  have lt: "(1::int) < int 2" by simp
  have fails: "verifyCartItems sampleEqMessage twoRowCart 1
       = Inl (''Cart verification failed: '' @ sampleEqMessage (int 2) 1 @ ''. ''
              @ ''Expected at least '' @ showInt 1 @ '' item(s) in cart.'')"
    using exact1 env lt by blast
  have "\<exists>n. cartItemsCount twoRowCart = Inr n \<and> int n = 2"
    using env by simp
  then have ok: "verifyCartItems sampleEqMessage twoRowCart 2 = Inr ()"
    using exact2 env by blast
  from env(4) fails ok show ?thesis by simp
qed

subsection \<open>Login\<close>

lemma login_reaches_submit:
  assumes "clickLoginLink pg = Inr ()" "fillUsername pg (username c) = Inr ()"
    and "fillPassword pg (password c) = Inr ()"
  shows "login toLowerCase pg c =
     (case submitLogin toLowerCase pg of
        (Inl errorMessage, d) \<Rightarrow>
          (Inl (''Login failed for user '' @ [CHR 0x22] @ username c @ [CHR 0x22]
                @ '': '' @ errorMessage @ ''. ''
                @ ''Please verify credentials and that the site is accessible.''), d)
      | (Inr u, d) \<Rightarrow> (Inr u, d))"
  using assms by (simp add: login_def clickElement_def fillInput_def)

lemma submitLogin_dialog:
  assumes "clickLoginButton pg = Inr ()" "loginDialogWait pg = Inr d" "acceptOutcome d = Inr ()"
  shows "submitLogin toLowerCase pg =
     (if includesStr (toLowerCase (message d)) ''wrong password''
         \<or> includesStr (toLowerCase (message d)) ''user does not exist''
      then Inl (''Login failed: '' @ message d) else Inr (),
      Some (d\<lparr>acceptCalls := Suc (acceptCalls d)\<rparr>))"
  using assms by (simp add: submitLogin_def catchNull_def clickElement_def accept_def)

lemma submitLogin_no_dialog:
  assumes "clickLoginButton pg = Inr ()" "loginDialogWait pg = Inl t"
  shows "submitLogin toLowerCase pg = (Inr (), None)"
  using assms by (simp add: submitLogin_def catchNull_def clickElement_def)

text \<open>
  C10. When the clicks and fills of \<open>login\<close> succeed, a dialog arrives and accepting it
  succeeds, \<open>login\<close> accepts the dialog once, and it throws exactly when the lower-cased
  message contains \<open>wrong password\<close> or \<open>user does not exist\<close>. For every other message
  it returns normally. This holds for every case mapping \<open>toLowerCase\<close>.
\<close>

theorem login_dialog_policy:
  "clickLoginLink pg = Inr () \<and> fillUsername pg (username c) = Inr ()
   \<and> fillPassword pg (password c) = Inr () \<and> clickLoginButton pg = Inr ()
   \<and> loginDialogWait pg = Inr d \<and> acceptOutcome d = Inr ()
   \<longrightarrow>
     snd (login toLowerCase pg c) = Some (d\<lparr>acceptCalls := Suc (acceptCalls d)\<rparr>)
     \<and> (fst (login toLowerCase pg c) = Inr () \<longleftrightarrow>
          \<not> includesStr (toLowerCase (message d)) ''wrong password''
          \<and> \<not> includesStr (toLowerCase (message d)) ''user does not exist'')
     \<and> (fst (login toLowerCase pg c) \<noteq> Inr () \<longrightarrow>
          fst (login toLowerCase pg c)
            = Inl (''Login failed for user '' @ [CHR 0x22] @ username c @ [CHR 0x22]
                   @ '': Login failed: '' @ message d @ ''. ''
                   @ ''Please verify credentials and that the site is accessible.''))"
proof
  assume h: "clickLoginLink pg = Inr () \<and> fillUsername pg (username c) = Inr ()
   \<and> fillPassword pg (password c) = Inr () \<and> clickLoginButton pg = Inr ()
   \<and> loginDialogWait pg = Inr d \<and> acceptOutcome d = Inr ()"
  then have l: "login toLowerCase pg c =
     (case submitLogin toLowerCase pg of
        (Inl errorMessage, d) \<Rightarrow>
          (Inl (''Login failed for user '' @ [CHR 0x22] @ username c @ [CHR 0x22]
                @ '': '' @ errorMessage @ ''. ''
                @ ''Please verify credentials and that the site is accessible.''), d)
      | (Inr u, d) \<Rightarrow> (Inr u, d))"
    by (simp add: login_reaches_submit)
  from h have s: "submitLogin toLowerCase pg =
     (if includesStr (toLowerCase (message d)) ''wrong password''
         \<or> includesStr (toLowerCase (message d)) ''user does not exist''
      then Inl (''Login failed: '' @ message d) else Inr (),
      Some (d\<lparr>acceptCalls := Suc (acceptCalls d)\<rparr>))"
    by (simp add: submitLogin_dialog)
  show "snd (login toLowerCase pg c) = Some (d\<lparr>acceptCalls := Suc (acceptCalls d)\<rparr>)
     \<and> (fst (login toLowerCase pg c) = Inr () \<longleftrightarrow>
          \<not> includesStr (toLowerCase (message d)) ''wrong password''
          \<and> \<not> includesStr (toLowerCase (message d)) ''user does not exist'')
     \<and> (fst (login toLowerCase pg c) \<noteq> Inr () \<longrightarrow>
          fst (login toLowerCase pg c)
            = Inl (''Login failed for user '' @ [CHR 0x22] @ username c @ [CHR 0x22]
                   @ '': Login failed: '' @ message d @ ''. ''
                   @ ''Please verify credentials and that the site is accessible.''))"
    unfolding l s by simp
qed

theorem login_dialog_policy_witness:
  "fst (login asciiLowerCase (loginPageWith (Inr captchaDialog)) testUser) = Inr ()
   \<and> snd (login asciiLowerCase (loginPageWith (Inr captchaDialog)) testUser)
       = Some (captchaDialog\<lparr>acceptCalls := Suc 0\<rparr>)
   \<and> fst (login asciiLowerCase (loginPageWith (Inr wrongPasswordDialog)) testUser) \<noteq> Inr ()"
proof -
  have capt: "\<not> includesStr (asciiLowerCase (message captchaDialog)) ''wrong password''"
    "\<not> includesStr (asciiLowerCase (message captchaDialog)) ''user does not exist''"
    by (simp_all add: captchaDialog_def asciiLowerCase_def lowerChar_def)
  have wrong: "includesStr (asciiLowerCase (message wrongPasswordDialog)) ''wrong password''"
    by (simp add: wrongPasswordDialog_def asciiLowerCase_def lowerChar_def)
  have calls: "acceptCalls captchaDialog = 0" by (simp add: captchaDialog_def)
  have a: "fst (login asciiLowerCase (loginPageWith (Inr captchaDialog)) testUser) = Inr ()
     \<and> snd (login asciiLowerCase (loginPageWith (Inr captchaDialog)) testUser)
       = Some (captchaDialog\<lparr>acceptCalls := Suc (acceptCalls captchaDialog)\<rparr>)"
    using login_dialog_policy
      [where toLowerCase = asciiLowerCase and pg = "loginPageWith (Inr captchaDialog)"
         and c = testUser and d = captchaDialog]
      capt
    by (simp add: loginPageWith_def captchaDialog_def)
  have b: "fst (login asciiLowerCase (loginPageWith (Inr wrongPasswordDialog)) testUser) \<noteq> Inr ()"
    using login_dialog_policy
      [where toLowerCase = asciiLowerCase and pg = "loginPageWith (Inr wrongPasswordDialog)"
         and c = testUser and d = wrongPasswordDialog] wrong
    by (simp add: loginPageWith_def wrongPasswordDialog_def)
  from a b calls show ?thesis by simp
qed

subsection \<open>Dialogs\<close>

lemma includesStr_added:
  "includesStr s ''product added'' \<Longrightarrow> includesStr s ''added''"
proof -
  assume "includesStr s ''product added''"
  then obtain p q where "s = p @ ''product added'' @ q" by (auto simp: includes_iff)
  then have "s = (p @ ''product '') @ ''added'' @ q" by simp
  then show ?thesis unfolding includes_iff by blast
qed

lemma verifyAddToCartSuccess_rejected:
  "verifyAddToCartSuccess toLowerCase (Inl t)
     = (Inl (''Add to cart success verification failed: '' @ t @ ''. ''
             @ ''Please verify the product was added successfully.''), None)"
  by (simp add: verifyAddToCartSuccess_def)

lemma verifyAddToCartSuccess_dialog:
  "verifyAddToCartSuccess toLowerCase (Inr d)
     = ((case acceptOutcome d of
           Inl a \<Rightarrow> Inl (''Add to cart success verification failed: '' @ a @ ''. ''
                         @ ''Please verify the product was added successfully.'')
         | Inr u \<Rightarrow>
             if includesStr (toLowerCase (message d)) ''added'' then Inr ()
             else Inl (''Add to cart success verification failed: ''
                       @ ''Unexpected dialog message: '' @ message d
                       @ ''. Expected: Product added'' @ ''. ''
                       @ ''Please verify the product was added successfully.'')),
        Some (d\<lparr>acceptCalls := Suc (acceptCalls d)\<rparr>))"
  using includesStr_added [of "toLowerCase (message d)"]
  by (auto simp: verifyAddToCartSuccess_def accept_def Let_def split: sum.splits)

lemma handleDialog_dialog:
  "handleDialog toLowerCase (Inr d) expected
     = ((case acceptOutcome d of
           Inl a \<Rightarrow> Inl (''Dialog handling failed: '' @ a)
         | Inr u \<Rightarrow>
             (case expected of
                None \<Rightarrow> Inr (Some (message d))
              | Some e \<Rightarrow>
                  if e = [] \<or> includesStr (toLowerCase (message d)) (toLowerCase e)
                  then Inr (Some (message d))
                  else Inl (''Dialog handling failed: '' @ ''Unexpected dialog message: ''
                            @ message d @ ''. Expected: '' @ e))),
        Some (d\<lparr>acceptCalls := Suc (acceptCalls d)\<rparr>))"
  by (auto simp: handleDialog_def catchNull_def accept_def Let_def split: sum.splits option.splits)

text \<open>
  C6. When the dialog wait of \<open>login\<close> rejects and its clicks and fills succeed, \<open>login\<close>
  returns normally: the rejection has been turned into \<open>null\<close>. When no dialog fires after
  \<open>Add to cart\<close>, the promise that \<open>addProductToCart\<close> returns is rejected, and
  \<open>verifyAddToCartSuccess\<close> throws on it, as it does on every rejected dialog promise,
  with the reason of the rejection in its message. The two steps of the scenario fail as
  well: there the rejection is raised where the first step awaits the promise.
\<close>

theorem dialog_timeout_policies:
  "(loginDialogWait pg = Inl t \<and> clickLoginLink pg = Inr ()
      \<and> fillUsername pg (username c) = Inr () \<and> fillPassword pg (password c) = Inr ()
      \<and> clickLoginButton pg = Inr ()
    \<longrightarrow> login toLowerCase pg c = (Inr (), None))
   \<and> (cartDialogWait cp = Inl t \<longrightarrow>
        (\<exists>e. addProductToCart cp = Inl e
           \<and> verifyAddToCartSuccess toLowerCase (addProductToCart cp)
               = (Inl (''Add to cart success verification failed: '' @ e @ ''. ''
                       @ ''Please verify the product was added successfully.''), None)))
   \<and> (cartDialogWait cp = Inl t \<and> clickAddToCart cp = Inr () \<longrightarrow> addProductToCart cp = Inl t)
   \<and> verifyAddToCartSuccess toLowerCase (Inl t)
       = (Inl (''Add to cart success verification failed: '' @ t @ ''. ''
               @ ''Please verify the product was added successfully.''), None)
   \<and> (cartDialogWait cp = Inl t \<longrightarrow> (\<exists>e. addToCartSteps toLowerCase cp = (Inl e, None)))"
proof (intro conjI impI)
  assume "loginDialogWait pg = Inl t \<and> clickLoginLink pg = Inr ()
      \<and> fillUsername pg (username c) = Inr () \<and> fillPassword pg (password c) = Inr ()
      \<and> clickLoginButton pg = Inr ()"
  then show "login toLowerCase pg c = (Inr (), None)"
    by (simp add: login_reaches_submit submitLogin_no_dialog)
next
  assume "cartDialogWait cp = Inl t"
  then have "\<exists>e. addProductToCart cp = Inl e"
    by (cases "clickElement (clickAddToCart cp) (Some ''Click add to cart button'')")
       (simp_all add: addProductToCart_def)
  then obtain e where e: "addProductToCart cp = Inl e" ..
  then show "\<exists>e. addProductToCart cp = Inl e
           \<and> verifyAddToCartSuccess toLowerCase (addProductToCart cp)
               = (Inl (''Add to cart success verification failed: '' @ e @ ''. ''
                       @ ''Please verify the product was added successfully.''), None)"
    by (simp add: verifyAddToCartSuccess_rejected)
next
  assume "cartDialogWait cp = Inl t \<and> clickAddToCart cp = Inr ()"
  then show "addProductToCart cp = Inl t"
    by (simp add: addProductToCart_def clickElement_def)
next
  show "verifyAddToCartSuccess toLowerCase (Inl t)
       = (Inl (''Add to cart success verification failed: '' @ t @ ''. ''
               @ ''Please verify the product was added successfully.''), None)"
    by (rule verifyAddToCartSuccess_rejected)
next
  assume "cartDialogWait cp = Inl t"
  then have "\<exists>e. addProductToCart cp = Inl e"
    by (cases "clickElement (clickAddToCart cp) (Some ''Click add to cart button'')")
       (simp_all add: addProductToCart_def)
  then show "\<exists>e. addToCartSteps toLowerCase cp = (Inl e, None)"
    by (auto simp: addToCartSteps_def)
qed

theorem dialog_timeout_policies_witness:
  "login asciiLowerCase (loginPageWith (Inl ''Timeout 10000ms exceeded'')) testUser = (Inr (), None)
   \<and> addProductToCart silentProductPage = Inl ''Timeout 10000ms exceeded''
   \<and> verifyAddToCartSuccess asciiLowerCase (addProductToCart silentProductPage)
       = (Inl (''Add to cart success verification failed: '' @ ''Timeout 10000ms exceeded''
               @ ''. '' @ ''Please verify the product was added successfully.''), None)
   \<and> (\<exists>e. addToCartSteps asciiLowerCase silentProductPage = (Inl e, None))"
proof -
  note policies =
    dialog_timeout_policies
      [where toLowerCase = asciiLowerCase
         and pg = "loginPageWith (Inl ''Timeout 10000ms exceeded'')"
         and t = "''Timeout 10000ms exceeded''" and c = testUser and cp = silentProductPage]
  have lp: "loginDialogWait (loginPageWith (Inl ''Timeout 10000ms exceeded''))
              = Inl ''Timeout 10000ms exceeded''"
    "clickLoginLink (loginPageWith (Inl ''Timeout 10000ms exceeded'')) = Inr ()"
    "fillUsername (loginPageWith (Inl ''Timeout 10000ms exceeded'')) (username testUser) = Inr ()"
    "fillPassword (loginPageWith (Inl ''Timeout 10000ms exceeded'')) (password testUser) = Inr ()"
    "clickLoginButton (loginPageWith (Inl ''Timeout 10000ms exceeded'')) = Inr ()"
    by (simp_all add: loginPageWith_def)
  have cp: "cartDialogWait silentProductPage = Inl ''Timeout 10000ms exceeded''"
    "clickAddToCart silentProductPage = Inr ()"
    by (simp_all add: silentProductPage_def)
  have a: "login asciiLowerCase (loginPageWith (Inl ''Timeout 10000ms exceeded'')) testUser = (Inr (), None)"
    using policies lp by blast
  have b: "addProductToCart silentProductPage = Inl ''Timeout 10000ms exceeded''"
    using policies cp by blast
  have c: "verifyAddToCartSuccess asciiLowerCase (Inl ''Timeout 10000ms exceeded'')
       = (Inl (''Add to cart success verification failed: '' @ ''Timeout 10000ms exceeded''
               @ ''. '' @ ''Please verify the product was added successfully.''), None)"
    using policies by blast
  have d: "\<exists>e. addToCartSteps asciiLowerCase silentProductPage = (Inl e, None)"
    using policies cp by blast
  from a b c d show ?thesis by (simp only: b c a d simp_thms)
qed

text \<open>
  C7. Whenever a dialog arrives, \<open>verifyAddToCartSuccess\<close> and \<open>handleDialog\<close> call
  \<open>accept\<close> on it exactly once, on every path. When \<open>accept\<close> succeeds and the lower-cased
  message does not contain the expected text (\<open>added\<close> for \<open>verifyAddToCartSuccess\<close>, the
  lower-cased non-empty \<open>expectedMessage\<close> for \<open>handleDialog\<close>), the call throws an error
  that carries the message of the dialog and the expected text. The dialog is accepted
  before that error is raised: when \<open>accept\<close> itself throws, its error is the one that is
  raised. This holds for every case mapping \<open>toLowerCase\<close>.
\<close>

theorem dialog_accepted_before_mismatch:
  "snd (verifyAddToCartSuccess toLowerCase (Inr d)) = Some (d\<lparr>acceptCalls := Suc (acceptCalls d)\<rparr>)
   \<and> snd (handleDialog toLowerCase (Inr d) expected) = Some (d\<lparr>acceptCalls := Suc (acceptCalls d)\<rparr>)
   \<and> (acceptOutcome d = Inr () \<and> \<not> includesStr (toLowerCase (message d)) ''added'' \<longrightarrow>
        fst (verifyAddToCartSuccess toLowerCase (Inr d))
          = Inl (''Add to cart success verification failed: ''
                 @ ''Unexpected dialog message: '' @ message d @ ''. Expected: Product added''
                 @ ''. '' @ ''Please verify the product was added successfully.''))
   \<and> (acceptOutcome d = Inr () \<and> e \<noteq> []
        \<and> \<not> includesStr (toLowerCase (message d)) (toLowerCase e) \<longrightarrow>
        fst (handleDialog toLowerCase (Inr d) (Some e))
          = Inl (''Dialog handling failed: '' @ ''Unexpected dialog message: '' @ message d
                 @ ''. Expected: '' @ e))
   \<and> (acceptOutcome d = Inl a \<longrightarrow>
        fst (verifyAddToCartSuccess toLowerCase (Inr d))
          = Inl (''Add to cart success verification failed: '' @ a @ ''. ''
                 @ ''Please verify the product was added successfully.'')
        \<and> fst (handleDialog toLowerCase (Inr d) expected) = Inl (''Dialog handling failed: '' @ a))"
  by (simp add: verifyAddToCartSuccess_dialog handleDialog_dialog)

theorem dialog_accepted_before_mismatch_witness:
  "verifyAddToCartSuccess asciiLowerCase (Inr soldOutDialog)
     = (Inl (''Add to cart success verification failed: ''
             @ ''Unexpected dialog message: Sold out. Expected: Product added''
             @ ''. '' @ ''Please verify the product was added successfully.''),
        Some (soldOutDialog\<lparr>acceptCalls := 1\<rparr>))
   \<and> handleDialog asciiLowerCase (Inr soldOutDialog) (Some ''Product added'')
     = (Inl (''Dialog handling failed: ''
             @ ''Unexpected dialog message: Sold out. Expected: Product added''),
        Some (soldOutDialog\<lparr>acceptCalls := 1\<rparr>))
   \<and> verifyAddToCartSuccess asciiLowerCase (Inr staleDialog)
     = (Inl (''Add to cart success verification failed: ''
             @ ''Cannot accept dialog which is already handled!''
             @ ''. '' @ ''Please verify the product was added successfully.''),
        Some (staleDialog\<lparr>acceptCalls := 1\<rparr>))"
proof -
  have m: "\<not> includesStr (asciiLowerCase (message soldOutDialog)) ''added''"
    "\<not> includesStr (asciiLowerCase (message soldOutDialog)) (asciiLowerCase ''Product added'')"
    by (simp_all add: soldOutDialog_def asciiLowerCase_def lowerChar_def)
  have o: "acceptOutcome soldOutDialog = Inr ()" "message soldOutDialog = ''Sold out''"
    "acceptCalls soldOutDialog = 0"
    by (simp_all add: soldOutDialog_def)
  have s: "acceptOutcome staleDialog = Inl ''Cannot accept dialog which is already handled!''"
    "acceptCalls staleDialog = 0"
    by (simp_all add: staleDialog_def)
  have a: "verifyAddToCartSuccess asciiLowerCase (Inr soldOutDialog)
     = (Inl (''Add to cart success verification failed: ''
             @ ''Unexpected dialog message: Sold out. Expected: Product added''
             @ ''. '' @ ''Please verify the product was added successfully.''),
        Some (soldOutDialog\<lparr>acceptCalls := 1\<rparr>))"
    using dialog_accepted_before_mismatch
      [where toLowerCase = asciiLowerCase and d = soldOutDialog
         and expected = "Some ''Product added''"] m o
    by (simp add: prod_eq_iff)
  have b: "handleDialog asciiLowerCase (Inr soldOutDialog) (Some ''Product added'')
     = (Inl (''Dialog handling failed: ''
             @ ''Unexpected dialog message: Sold out. Expected: Product added''),
        Some (soldOutDialog\<lparr>acceptCalls := 1\<rparr>))"
    using dialog_accepted_before_mismatch
      [where toLowerCase = asciiLowerCase and d = soldOutDialog
         and expected = "Some ''Product added''" and e = "''Product added''"] m o
    by (simp add: prod_eq_iff)
  have c: "verifyAddToCartSuccess asciiLowerCase (Inr staleDialog)
     = (Inl (''Add to cart success verification failed: ''
             @ ''Cannot accept dialog which is already handled!''
             @ ''. '' @ ''Please verify the product was added successfully.''),
        Some (staleDialog\<lparr>acceptCalls := 1\<rparr>))"
    using dialog_accepted_before_mismatch
      [where toLowerCase = asciiLowerCase and d = staleDialog and expected = None
         and a = "''Cannot accept dialog which is already handled!''"] s
    by (simp add: prod_eq_iff)
  from a b c show ?thesis by blast
qed

subsection \<open>Browser lifecycle\<close>

lemma launchIfMissing_cases:
  "launchIfMissing drv ch s = (r, s1) \<Longrightarrow>
     (browser s \<noteq> None \<and> r = Inr () \<and> s1 = s)
     \<or> (browser s = None \<and> (\<exists>e. drv (calls s) (Launch (getBrowserLauncher ch)) = Inl e \<and> r = Inl e
            \<and> s1 = s\<lparr>calls := calls s @ [Launch (getBrowserLauncher ch)]\<rparr>))
     \<or> (browser s = None \<and> (\<exists>b. drv (calls s) (Launch (getBrowserLauncher ch)) = Inr b \<and> r = Inr ()
            \<and> s1 = s\<lparr>browser := Some b, calls := calls s @ [Launch (getBrowserLauncher ch)],
                      logs := logs s @ [LogInfo (''Browser launched: '' @ ch)]\<rparr>))"
  by (auto simp: launchIfMissing_def invoke_def logTo_def split: if_splits sum.splits)

lemma newContextIfMissing_cases:
  "newContextIfMissing drv s = (r, s1) \<Longrightarrow> browser s = Some b \<Longrightarrow>
     (browserContext s \<noteq> None \<and> r = Inr () \<and> s1 = s)
     \<or> (browserContext s = None \<and> (\<exists>e. drv (calls s) (NewContext b) = Inl e \<and> r = Inl e
            \<and> s1 = s\<lparr>calls := calls s @ [NewContext b]\<rparr>))
     \<or> (browserContext s = None \<and> (\<exists>c. drv (calls s) (NewContext b) = Inr c \<and> r = Inr ()
            \<and> s1 = s\<lparr>browserContext := Some c, calls := calls s @ [NewContext b],
                      logs := logs s @ [LogDebug ''Browser context created'']\<rparr>))"
  by (auto simp: newContextIfMissing_def invoke_def logTo_def split: if_splits sum.splits)

lemma newPageIfMissing_cases:
  "newPageIfMissing drv s = (r, s1) \<Longrightarrow> browserContext s = Some c \<Longrightarrow>
     (page s \<noteq> None \<and> r = Inr () \<and> s1 = s)
     \<or> (page s = None \<and> (\<exists>e. drv (calls s) (NewPage c) = Inl e \<and> r = Inl e
            \<and> s1 = s\<lparr>calls := calls s @ [NewPage c]\<rparr>))
     \<or> (page s = None \<and> (\<exists>p. drv (calls s) (NewPage c) = Inr p \<and> r = Inr ()
            \<and> s1 = s\<lparr>page := Some p, calls := calls s @ [NewPage c],
                      logs := logs s @ [LogDebug ''New page created'']\<rparr>))"
  by (auto simp: newPageIfMissing_def invoke_def logTo_def split: if_splits sum.splits)

lemma initializeBrowser_ready:
  assumes "browser s = Some b" "browserContext s = Some c" "page s = Some p"
  shows "initializeBrowser drv ch s = (Inr (Some p), s)"
  using assms
  by (simp add: initializeBrowser_def launchIfMissing_def newContextIfMissing_def
      newPageIfMissing_def)

lemma initializeBrowser_success:
  assumes "initializeBrowser drv ch s = (Inr r, s')"
  shows "\<exists>b c p. browser s' = Some b \<and> browserContext s' = Some c \<and> page s' = Some p
           \<and> r = Some p
           \<and> calls s' = calls s
               @ (if browser s = None then [Launch (getBrowserLauncher ch)] else [])
               @ (if browserContext s = None then [NewContext b] else [])
               @ (if page s = None then [NewPage c] else [])
           \<and> (browser s \<noteq> None \<longrightarrow> browser s' = browser s)
           \<and> (browserContext s \<noteq> None \<longrightarrow> browserContext s' = browserContext s)
           \<and> (page s \<noteq> None \<longrightarrow> page s' = page s)"
proof -
  obtain r1 s1 where 1: "launchIfMissing drv ch s = (r1, s1)" by force
  obtain r2 s2 where 2: "newContextIfMissing drv s1 = (r2, s2)" by force
  obtain r3 s3 where 3: "newPageIfMissing drv s2 = (r3, s3)" by force
  from assms 1 have r1: "r1 = Inr ()"
    by (auto simp: initializeBrowser_def initializeFailed_def split: sum.splits)
  from assms 1 2 r1 have r2: "r2 = Inr ()"
    by (auto simp: initializeBrowser_def initializeFailed_def split: sum.splits)
  from assms 1 2 3 r1 r2 have r3: "r3 = Inr ()" and s': "s' = s3" and r: "r = page s3"
    by (auto simp: initializeBrowser_def initializeFailed_def split: sum.splits)
  from launchIfMissing_cases [OF 1] r1 obtain b where b: "browser s1 = Some b"
    and s1: "browserContext s1 = browserContext s" "page s1 = page s"
      "calls s1 = calls s @ (if browser s = None then [Launch (getBrowserLauncher ch)] else [])"
      "browser s \<noteq> None \<longrightarrow> browser s1 = browser s"
    by auto
  from newContextIfMissing_cases [OF 2 b] r2 obtain c where c: "browserContext s2 = Some c"
    and s2: "browser s2 = Some b" "page s2 = page s1"
      "calls s2 = calls s1 @ (if browserContext s1 = None then [NewContext b] else [])"
      "browserContext s1 \<noteq> None \<longrightarrow> browserContext s2 = browserContext s1"
    using b by auto
  from newPageIfMissing_cases [OF 3 c] r3 obtain p where p: "page s3 = Some p"
    and s3: "browser s3 = Some b" "browserContext s3 = Some c"
      "calls s3 = calls s2 @ (if page s2 = None then [NewPage c] else [])"
      "page s2 \<noteq> None \<longrightarrow> page s3 = page s2"
    using c s2 by auto
  from b c p s1 s2 s3 s' r show ?thesis by auto
qed

lemma launchIfMissing_total:
  assumes "\<forall>made c. \<exists>h. drv made c = Inr h"
  shows "\<exists>s1 b. launchIfMissing drv ch s = (Inr (), s1) \<and> browser s1 = Some b"
proof (cases "browser s")
  case None
  from assms obtain h where "drv (calls s) (Launch (getBrowserLauncher ch)) = Inr h" by blast
  with None show ?thesis by (simp add: launchIfMissing_def invoke_def logTo_def)
next
  case (Some b)
  then show ?thesis by (simp add: launchIfMissing_def)
qed

lemma newContextIfMissing_total:
  assumes "\<forall>made c. \<exists>h. drv made c = Inr h" and "browser s = Some b"
  shows "\<exists>s1 c. newContextIfMissing drv s = (Inr (), s1) \<and> browserContext s1 = Some c"
proof (cases "browserContext s")
  case None
  from assms obtain h where "drv (calls s) (NewContext b) = Inr h" by blast
  with None assms(2) show ?thesis by (simp add: newContextIfMissing_def invoke_def logTo_def)
next
  case (Some c)
  then show ?thesis by (simp add: newContextIfMissing_def)
qed

lemma newPageIfMissing_total:
  assumes "\<forall>made c. \<exists>h. drv made c = Inr h" and "browserContext s = Some c"
  shows "\<exists>s1. newPageIfMissing drv s = (Inr (), s1)"
proof (cases "page s")
  case None
  from assms obtain h where "drv (calls s) (NewPage c) = Inr h" by blast
  with None assms(2) show ?thesis by (simp add: newPageIfMissing_def invoke_def logTo_def)
next
  case (Some p)
  then show ?thesis by (simp add: newPageIfMissing_def)
qed

lemma initializeBrowser_total:
  assumes "\<forall>made c. \<exists>h. drv made c = Inr h"
  shows "\<exists>r s'. initializeBrowser drv ch s = (Inr r, s')"
proof -
  from launchIfMissing_total [OF assms] obtain s1 b
    where 1: "launchIfMissing drv ch s = (Inr (), s1)" and b: "browser s1 = Some b" by blast
  from newContextIfMissing_total [OF assms b] obtain s2 c
    where 2: "newContextIfMissing drv s1 = (Inr (), s2)" and c: "browserContext s2 = Some c"
    by blast
  from newPageIfMissing_total [OF assms c] obtain s3
    where 3: "newPageIfMissing drv s2 = (Inr (), s3)" by blast
  from 1 2 3 show ?thesis by (simp add: initializeBrowser_def)
qed

lemma cleanupBrowser_closed:
  assumes "browser s = None" "browserContext s = None" "page s = None"
  shows "cleanupBrowser drv s = (Inr (), s)"
  using assms
  by (simp add: cleanupBrowser_def closePageIfSet_def closeContextIfSet_def closeBrowserIfSet_def)

lemma cleanupBrowser_returns: "fst (cleanupBrowser drv s) = Inr ()"
  by (simp add: cleanupBrowser_def cleanupFailed_def split: prod.splits sum.splits)

lemmas cleanup_defs =
  cleanupBrowser_def closePageIfSet_def closeContextIfSet_def closeBrowserIfSet_def
  cleanupFailed_def invoke_def logTo_def teardownOrder_def

lemma cleanupBrowser_calls:
  "calls (snd (cleanupBrowser drv s)) = fst (untilFirstThrow drv (calls s) (teardownOrder s))"
  by (cases "page s"; cases "browserContext s"; cases "browser s";
      simp add: cleanup_defs split: sum.splits)

lemma cleanupBrowser_due:
  "teardownOrder (snd (cleanupBrowser drv s))
     = fst (snd (untilFirstThrow drv (calls s) (teardownOrder s)))"
  by (cases "page s"; cases "browserContext s"; cases "browser s";
      simp add: cleanup_defs split: sum.splits)

lemma cleanupBrowser_error_logged:
  "filter isErrorEntry (logs (snd (cleanupBrowser drv s)))
     = filter isErrorEntry (logs s)
       @ (case snd (snd (untilFirstThrow drv (calls s) (teardownOrder s))) of
            None \<Rightarrow> []
          | Some e \<Rightarrow> [LogError ''Error during browser cleanup'' e])"
  by (cases "page s"; cases "browserContext s"; cases "browser s";
      simp add: cleanup_defs split: sum.splits)

lemma untilFirstThrow_all_ok:
  assumes "\<forall>made c. \<exists>h. drv made c = Inr h"
  shows "untilFirstThrow drv made due = (made @ due, [], None)"
proof (induction due arbitrary: made)
  case Nil
  show ?case by simp
next
  case (Cons c due)
  from assms obtain h where "drv made c = Inr h" by blast
  with Cons [of "made @ [c]"] show ?case by simp
qed

lemma untilFirstThrow_append:
  assumes "untilFirstThrow drv made done = (made @ done, [], None)"
  shows "untilFirstThrow drv made (done @ later) = untilFirstThrow drv (made @ done) later"
  using assms
proof (induction "done" arbitrary: made)
  case Nil
  show ?case by simp
next
  case (Cons c "done")
  show ?case
  proof (cases "drv made c")
    case (Inl e)
    with Cons.prems show ?thesis by simp
  next
    case (Inr h)
    with Cons.prems have "untilFirstThrow drv (made @ [c]) done = ((made @ [c]) @ done, [], None)"
      by simp
    from Cons.IH [OF this] Inr show ?thesis by simp
  qed
qed

lemma untilFirstThrow_stops:
  assumes "untilFirstThrow drv made done = (made @ done, [], None)"
    and "drv (made @ done) c = Inl e"
  shows "untilFirstThrow drv made (done @ c # rest) = (made @ done @ [c], c # rest, Some e)"
  using untilFirstThrow_append [OF assms(1), of "c # rest"] assms(2) by simp

lemma teardownOrder_empty_iff:
  "teardownOrder s = [] \<longleftrightarrow> page s = None \<and> browserContext s = None \<and> browser s = None"
  by (simp add: teardownOrder_def split: option.splits)

lemma cleanupBrowser_all_ok:
  assumes "\<forall>made c. \<exists>h. drv made c = Inr h"
  shows "calls (snd (cleanupBrowser drv s)) = calls s @ teardownOrder s"
    and "page (snd (cleanupBrowser drv s)) = None"
    and "browserContext (snd (cleanupBrowser drv s)) = None"
    and "browser (snd (cleanupBrowser drv s)) = None"
proof -
  note run = untilFirstThrow_all_ok [OF assms, of "calls s" "teardownOrder s"]
  show "calls (snd (cleanupBrowser drv s)) = calls s @ teardownOrder s"
    by (simp add: cleanupBrowser_calls run)
  have "teardownOrder (snd (cleanupBrowser drv s)) = []"
    by (simp add: cleanupBrowser_due run)
  then show "page (snd (cleanupBrowser drv s)) = None"
    and "browserContext (snd (cleanupBrowser drv s)) = None"
    and "browser (snd (cleanupBrowser drv s)) = None"
    by (simp_all add: teardownOrder_empty_iff)
qed

text \<open>
  C1. From any state, a call of \<open>initializeBrowser\<close> that returns has made exactly the
  calls for the links that were missing (launch, new context, new page, in this order),
  has kept the handles that were set, and returns the page handle of the new state. A
  further call on the new state, whatever Playwright would answer, returns the same
  handle and leaves the state as it is: no call is made. When Playwright does not throw,
  \<open>initializeBrowser\<close> returns. \<open>cleanupBrowser\<close> on a state whose three handles are
  \<open>null\<close> makes no call and leaves the state as it is; in particular this is the second
  of two calls in sequence when the first has closed everything.
\<close>

theorem lifecycle_idempotent:
  "(initializeBrowser drv ch s = (Inr r, s') \<longrightarrow>
      (\<exists>b c p. browser s' = Some b \<and> browserContext s' = Some c \<and> page s' = Some p
         \<and> r = Some p
         \<and> calls s' = calls s
             @ (if browser s = None then [Launch (getBrowserLauncher ch)] else [])
             @ (if browserContext s = None then [NewContext b] else [])
             @ (if page s = None then [NewPage c] else [])
         \<and> (browser s \<noteq> None \<longrightarrow> browser s' = browser s)
         \<and> (browserContext s \<noteq> None \<longrightarrow> browserContext s' = browserContext s)
         \<and> (page s \<noteq> None \<longrightarrow> page s' = page s))
      \<and> (\<forall>drv' ch'. initializeBrowser drv' ch' s' = (Inr r, s')))
   \<and> ((\<forall>made c. \<exists>h. drv made c = Inr h) \<longrightarrow>
        (\<exists>r s'. initializeBrowser drv ch s = (Inr r, s')))
   \<and> (browser s = None \<and> browserContext s = None \<and> page s = None \<longrightarrow>
        cleanupBrowser drv s = (Inr (), s))
   \<and> ((\<forall>made c. \<exists>h. drv made c = Inr h) \<longrightarrow>
        cleanupBrowser drv' (snd (cleanupBrowser drv s)) = (Inr (), snd (cleanupBrowser drv s)))"
proof (intro conjI impI)
  assume ok: "initializeBrowser drv ch s = (Inr r, s')"
  from initializeBrowser_success [OF ok]
  show "\<exists>b c p. browser s' = Some b \<and> browserContext s' = Some c \<and> page s' = Some p
         \<and> r = Some p
         \<and> calls s' = calls s
             @ (if browser s = None then [Launch (getBrowserLauncher ch)] else [])
             @ (if browserContext s = None then [NewContext b] else [])
             @ (if page s = None then [NewPage c] else [])
         \<and> (browser s \<noteq> None \<longrightarrow> browser s' = browser s)
         \<and> (browserContext s \<noteq> None \<longrightarrow> browserContext s' = browserContext s)
         \<and> (page s \<noteq> None \<longrightarrow> page s' = page s)" .
  from initializeBrowser_success [OF ok] obtain b c p
    where "browser s' = Some b" "browserContext s' = Some c" "page s' = Some p" "r = Some p"
    by blast
  then show "\<forall>drv' ch'. initializeBrowser drv' ch' s' = (Inr r, s')"
    by (simp add: initializeBrowser_ready)
next
  assume "\<forall>made c. \<exists>h. drv made c = Inr h"
  then show "\<exists>r s'. initializeBrowser drv ch s = (Inr r, s')"
    by (rule initializeBrowser_total)
next
  assume "browser s = None \<and> browserContext s = None \<and> page s = None"
  then show "cleanupBrowser drv s = (Inr (), s)"
    by (simp add: cleanupBrowser_closed)
next
  assume "\<forall>made c. \<exists>h. drv made c = Inr h"
  from cleanupBrowser_all_ok(2-4) [OF this]
  show "cleanupBrowser drv' (snd (cleanupBrowser drv s)) = (Inr (), snd (cleanupBrowser drv s))"
    by (simp add: cleanupBrowser_closed)
qed

lemma countingDriver_total: "\<forall>made c. \<exists>h. countingDriver made c = Inr h"
  by (simp add: countingDriver_def)

lemma initializeBrowser_unstarted:
  "initializeBrowser countingDriver ''chromium'' unstarted = (Inr (Some 3), pageReady)"
  by (simp add: initializeBrowser_def launchIfMissing_def newContextIfMissing_def
      newPageIfMissing_def invoke_def logTo_def countingDriver_def unstarted_def pageReady_def
      getBrowserLauncher_def)

theorem lifecycle_idempotent_witness:
  "initializeBrowser countingDriver ''chromium'' unstarted = (Inr (Some 3), pageReady)
   \<and> initializeBrowser pageCloseThrows ''firefox'' pageReady = (Inr (Some 3), pageReady)
   \<and> calls pageReady = calls unstarted @ [Launch Chromium, NewContext 1, NewPage 2]
   \<and> cleanupBrowser pageCloseThrows unstarted = (Inr (), unstarted)
   \<and> cleanupBrowser pageCloseThrows (snd (cleanupBrowser countingDriver pageReady))
       = (Inr (), snd (cleanupBrowser countingDriver pageReady))"
proof -
  note idem =
    lifecycle_idempotent
      [of countingDriver "''chromium''" unstarted "Some 3" pageReady pageCloseThrows]
  note idem' =
    lifecycle_idempotent [of countingDriver "''chromium''" pageReady _ _ pageCloseThrows]
  note idem'' =
    lifecycle_idempotent [of pageCloseThrows "''chromium''" unstarted]
  have again: "initializeBrowser pageCloseThrows ''firefox'' pageReady = (Inr (Some 3), pageReady)"
    using idem initializeBrowser_unstarted by blast
  have made: "calls pageReady = calls unstarted @ [Launch Chromium, NewContext 1, NewPage 2]"
    by (simp add: pageReady_def unstarted_def)
  have closed: "browser unstarted = None \<and> browserContext unstarted = None
                \<and> page unstarted = None"
    by (simp add: unstarted_def)
  have noop: "cleanupBrowser pageCloseThrows unstarted = (Inr (), unstarted)"
    using idem'' closed by blast
  have twice: "cleanupBrowser pageCloseThrows (snd (cleanupBrowser countingDriver pageReady))
       = (Inr (), snd (cleanupBrowser countingDriver pageReady))"
    using idem' countingDriver_total by blast
  from initializeBrowser_unstarted again made noop twice show ?thesis by blast
qed

text \<open>
  \<open>cleanupBrowser\<close> as a run of calls: it makes the teardown calls that are due, in the
  order page, context, browser, up to and including the first that throws, and logs the
  error of that call.
\<close>

lemma cleanupBrowser_run_until_throw:
  "fst (cleanupBrowser drv s) = Inr ()
   \<and> calls (snd (cleanupBrowser drv s))
       = fst (untilFirstThrow drv (calls s) (teardownOrder s))
   \<and> teardownOrder (snd (cleanupBrowser drv s))
       = fst (snd (untilFirstThrow drv (calls s) (teardownOrder s)))
   \<and> filter isErrorEntry (logs (snd (cleanupBrowser drv s)))
       = filter isErrorEntry (logs s)
         @ (case snd (snd (untilFirstThrow drv (calls s) (teardownOrder s))) of
              None \<Rightarrow> []
            | Some e \<Rightarrow> [LogError ''Error during browser cleanup'' e])
   \<and> ((\<forall>made c. \<exists>h. drv made c = Inr h) \<longrightarrow>
        calls (snd (cleanupBrowser drv s)) = calls s @ teardownOrder s
        \<and> page (snd (cleanupBrowser drv s)) = None
        \<and> browserContext (snd (cleanupBrowser drv s)) = None
        \<and> browser (snd (cleanupBrowser drv s)) = None)
   \<and> (teardownOrder s = done @ c # rest
        \<and> untilFirstThrow drv (calls s) done = (calls s @ done, [], None)
        \<and> drv (calls s @ done) c = Inl e \<longrightarrow>
        calls (snd (cleanupBrowser drv s)) = calls s @ done @ [c]
        \<and> teardownOrder (snd (cleanupBrowser drv s)) = c # rest
        \<and> filter isErrorEntry (logs (snd (cleanupBrowser drv s)))
            = filter isErrorEntry (logs s) @ [LogError ''Error during browser cleanup'' e])"
proof (intro conjI impI)
  show "fst (cleanupBrowser drv s) = Inr ()"
    by (rule cleanupBrowser_returns)
  show "calls (snd (cleanupBrowser drv s))
       = fst (untilFirstThrow drv (calls s) (teardownOrder s))"
    by (rule cleanupBrowser_calls)
  show "teardownOrder (snd (cleanupBrowser drv s))
       = fst (snd (untilFirstThrow drv (calls s) (teardownOrder s)))"
    by (rule cleanupBrowser_due)
  show "filter isErrorEntry (logs (snd (cleanupBrowser drv s)))
       = filter isErrorEntry (logs s)
         @ (case snd (snd (untilFirstThrow drv (calls s) (teardownOrder s))) of
              None \<Rightarrow> []
            | Some e \<Rightarrow> [LogError ''Error during browser cleanup'' e])"
    by (rule cleanupBrowser_error_logged)
next
  assume ok: "\<forall>made c. \<exists>h. drv made c = Inr h"
  show "calls (snd (cleanupBrowser drv s)) = calls s @ teardownOrder s"
    and "page (snd (cleanupBrowser drv s)) = None"
    and "browserContext (snd (cleanupBrowser drv s)) = None"
    and "browser (snd (cleanupBrowser drv s)) = None"
    by (rule cleanupBrowser_all_ok [OF ok])+
next
  assume h: "teardownOrder s = done @ c # rest
        \<and> untilFirstThrow drv (calls s) done = (calls s @ done, [], None)
        \<and> drv (calls s @ done) c = Inl e"
  then have run: "untilFirstThrow drv (calls s) (teardownOrder s)
                    = (calls s @ done @ [c], c # rest, Some e)"
    by (simp add: untilFirstThrow_stops)
  show "calls (snd (cleanupBrowser drv s)) = calls s @ done @ [c]"
    by (simp add: cleanupBrowser_calls run)
  show "teardownOrder (snd (cleanupBrowser drv s)) = c # rest"
    by (simp add: cleanupBrowser_due run)
  show "filter isErrorEntry (logs (snd (cleanupBrowser drv s)))
            = filter isErrorEntry (logs s) @ [LogError ''Error during browser cleanup'' e]"
    by (simp add: cleanupBrowser_error_logged run)
qed

text \<open>
  C2. \<open>cleanupBrowser\<close> is to tear down the page, then the context, then the browser, to
  attempt each of the three even when an earlier one threw, and never to throw. On a state
  with all three handles set and a \<open>page.close()\<close> that throws, the code returns normally
  and logs the error, but it has called neither \<open>context.close()\<close> nor \<open>browser.close()\<close>:
  the browser stays open and the three handles stay set, so that the next
  \<open>initializeBrowser\<close> hands out the old page without a call. When nothing throws, the
  same state is torn down in the order page, context, browser.
\<close>

theorem cleanupBrowser_skips_after_throw:
  "cleanupBrowser pageCloseThrows pageReady
     = (Inr (),
        pageReady\<lparr>calls := calls pageReady @ [ClosePage 3],
                  logs := logs pageReady
                    @ [LogError ''Error during browser cleanup''
                         ''Target page, context or browser has been closed'']\<rparr>)
   \<and> CloseContext 2 \<notin> set (calls (snd (cleanupBrowser pageCloseThrows pageReady)))
   \<and> CloseBrowser 1 \<notin> set (calls (snd (cleanupBrowser pageCloseThrows pageReady)))
   \<and> page (snd (cleanupBrowser pageCloseThrows pageReady)) = Some 3
   \<and> browserContext (snd (cleanupBrowser pageCloseThrows pageReady)) = Some 2
   \<and> browser (snd (cleanupBrowser pageCloseThrows pageReady)) = Some 1
   \<and> initializeBrowser countingDriver ''chromium''
         (snd (cleanupBrowser pageCloseThrows pageReady))
       = (Inr (Some 3), snd (cleanupBrowser pageCloseThrows pageReady))
   \<and> cleanupBrowser countingDriver pageReady
     = (Inr (),
        \<lparr>browser = None, browserContext = None, page = None,
         calls = calls pageReady @ [ClosePage 3, CloseContext 2, CloseBrowser 1],
         logs = logs pageReady
           @ [LogDebug ''Page closed'', LogDebug ''Browser context closed'',
              LogInfo ''Browser closed'']\<rparr>)"
proof -
  have run: "cleanupBrowser pageCloseThrows pageReady
     = (Inr (),
        pageReady\<lparr>calls := calls pageReady @ [ClosePage 3],
                  logs := logs pageReady
                    @ [LogError ''Error during browser cleanup''
                         ''Target page, context or browser has been closed'']\<rparr>)"
    by (simp add: cleanup_defs pageCloseThrows_def pageReady_def)
  have again: "initializeBrowser countingDriver ''chromium''
         (snd (cleanupBrowser pageCloseThrows pageReady))
       = (Inr (Some 3), snd (cleanupBrowser pageCloseThrows pageReady))"
    unfolding run by (rule initializeBrowser_ready) (simp_all add: pageReady_def)
  have clean: "cleanupBrowser countingDriver pageReady
     = (Inr (),
        \<lparr>browser = None, browserContext = None, page = None,
         calls = calls pageReady @ [ClosePage 3, CloseContext 2, CloseBrowser 1],
         logs = logs pageReady
           @ [LogDebug ''Page closed'', LogDebug ''Browser context closed'',
              LogInfo ''Browser closed'']\<rparr>)"
    by (simp add: cleanup_defs countingDriver_def pageReady_def)
  show ?thesis
    unfolding again clean unfolding run by (simp add: pageReady_def)
qed

subsection \<open>Reading text\<close>

text \<open>
  C8. \<open>getText\<close> throws when \<open>textContent\<close> is \<open>null\<close> or the empty string. A text of
  white space only passes that test, and \<open>getText\<close> returns it trimmed: the empty string.
\<close>

theorem getText_white_space_only:
  "getText (Inr ()) (Inr None) name
     = Inl (''Failed to get text from '' @ orDefault name ''Element'' @ '': ''
            @ ''Element text is empty or null'' @ ''. ''
            @ ''Please verify the element is visible and contains text.'')
   \<and> getText (Inr ()) (Inr (Some [])) name
     = Inl (''Failed to get text from '' @ orDefault name ''Element'' @ '': ''
            @ ''Element text is empty or null'' @ ''. ''
            @ ''Please verify the element is visible and contains text.'')
   \<and> getText (Inr ()) (Inr (Some ''   '')) name = Inr []"
  by (simp add: getText_def trim_def isWhiteSpace_def)

end
